theory Spec2Isabelle
  imports Complex_Main "HOL-Library.Multiset"
begin

section \<open>The matrix primitive\<close>

text \<open>
  The layer code of \<^verbatim>\<open>layer.cu\<close> works on dense two-dimensional buffers
  (\<^verbatim>\<open>NVMatrix\<close> on the device, \<^verbatim>\<open>Matrix\<close> on the host). A buffer is
  the list of its rows. Single-precision numbers are idealised as reals: rounding,
  infinities and NaN are outside the model, and a division by zero (which
  the hardware answers with an infinity or a NaN) is kept out by an explicit
  hypothesis or an explicit branch wherever a theorem depends on it.
\<close>

type_synonym matrix = "real list list"

datatype error =
    Thrown string              \<comment> \<open>a C++ \<^verbatim>\<open>throw string(...)\<close>\<close>
  | AssertionFailed string     \<comment> \<open>a failed \<^verbatim>\<open>assert\<close>\<close>
  | OutOfRange                 \<comment> \<open>a vector indexed outside its bounds: undefined in C++\<close>
  | BadTopology                \<comment> \<open>an edge that construction cannot produce (see below)\<close>

text \<open>
  Modelled from the spec: the operations of the matrix primitive (transpose view,
  elementwise operations, reductions along an axis, matrix product), which the
  repository treats as an external collaborator.
\<close>

definition getNumRows :: "matrix \<Rightarrow> nat" where
  "getNumRows m = length m"

definition getNumCols :: "matrix \<Rightarrow> nat" where
  "getNumCols m = (case m of [] \<Rightarrow> 0 | r # _ \<Rightarrow> length r)"

definition getTranspose :: "matrix \<Rightarrow> matrix" where
  "getTranspose m = transpose m"

definition scale :: "real \<Rightarrow> matrix \<Rightarrow> matrix" where
  "scale a m = map (map (\<lambda>x. x * a)) m"

definition add :: "matrix \<Rightarrow> matrix \<Rightarrow> matrix" where
  "add a b = map2 (map2 (+)) a b"

definition subtract :: "matrix \<Rightarrow> matrix \<Rightarrow> matrix" where
  "subtract a b = map2 (map2 (-)) a b"

definition rightMult :: "matrix \<Rightarrow> matrix \<Rightarrow> matrix" where
  "rightMult a b = map (\<lambda>r. map (\<lambda>c. sum_list (map2 (*) r c)) (transpose b)) a"

text \<open>
  Modelled from the spec: \<^verbatim>\<open>target.addProduct(a, b, scaleThis, scaleAB)\<close> leaves
  \<open>scaleThis * target + scaleAB * (a * b)\<close> in the target; both factors default to 1.
\<close>

definition addProduct :: "matrix \<Rightarrow> matrix \<Rightarrow> matrix \<Rightarrow> real \<Rightarrow> real \<Rightarrow> matrix" where
  "addProduct target a b scaleThis scaleAB =
     add (scale scaleThis target) (scale scaleAB (rightMult a b))"

definition sameShape :: "matrix \<Rightarrow> matrix \<Rightarrow> bool" where
  "sameShape a b = list_all2 (\<lambda>r r'. length r = length r') a b"

text \<open>Modelled from the spec: \<^verbatim>\<open>truncate\<close> releases the buffer's memory.\<close>

definition NVMatrix_truncate :: "matrix \<Rightarrow> matrix" where
  "NVMatrix_truncate m = []"

text \<open>Modelled from the spec: the Frobenius norm of the host matrix.\<close>

definition norm2 :: "matrix \<Rightarrow> real" where
  "norm2 m = sum_list (map (\<lambda>row. sum_list (map (\<lambda>x. x * x) row)) m)"

definition norm :: "matrix \<Rightarrow> real" where
  "norm m = sqrt (norm2 m)"

text \<open>
  Modelled from the spec: the reductions and elementwise operations of the matrix
  primitive that \<^verbatim>\<open>SoftmaxLayer::_fprop\<close> calls. A softmax layer views its
  buffers with one case per row; \<^verbatim>\<open>max(1)\<close> and \<^verbatim>\<open>sum(1)\<close> reduce every row to
  one number and return a column vector, \<^verbatim>\<open>addVector(vec, scale, target)\<close> adds
  \<open>scale\<close> times the entry of the vector to every entry of the matching row, and
  \<^verbatim>\<open>eltwiseDivideByVector\<close> divides every row by the entry of the vector.
\<close>

fun rowMax :: "real list \<Rightarrow> real" where
  "rowMax [] = 0"
| "rowMax (x # xs) = fold max xs x"

definition max1 :: "matrix \<Rightarrow> matrix" where
  "max1 m = map (\<lambda>row. [rowMax row]) m"

definition sum1 :: "matrix \<Rightarrow> matrix" where
  "sum1 m = map (\<lambda>row. [sum_list row]) m"

definition sum0 :: "matrix \<Rightarrow> matrix" where
  "sum0 m = [map sum_list (transpose m)]"

definition addVector :: "matrix \<Rightarrow> matrix \<Rightarrow> real \<Rightarrow> matrix" where
  "addVector m vec scaleVec =
     map2 (\<lambda>row v. case v of [] \<Rightarrow> row | a # _ \<Rightarrow> map (\<lambda>x. x + scaleVec * a) row) m vec"

definition apply_EXP :: "matrix \<Rightarrow> matrix" where
  "apply_EXP m = map (map exp) m"

definition eltwiseDivideByVector :: "matrix \<Rightarrow> matrix \<Rightarrow> matrix" where
  "eltwiseDivideByVector m vec =
     map2 (\<lambda>row v. case v of [] \<Rightarrow> row | a # _ \<Rightarrow> map (\<lambda>x. x / a) row) m vec"

text \<open>
  Modelled from the spec: the further operations of the matrix primitive that the
  other forward computations call. \<^verbatim>\<open>max(0)\<close> reduces every column to its maximum
  and returns a row vector, \<^verbatim>\<open>sum()\<close> adds up all entries, and
  \<^verbatim>\<open>addVector(vec)\<close> with a vector of a single row (the biases of a
  fully-connected layer, line 389) adds that row to every row.
\<close>

definition max0 :: "matrix \<Rightarrow> matrix" where
  "max0 m = [map rowMax (transpose m)]"

definition sumAll :: "matrix \<Rightarrow> real" where
  "sumAll m = sum_list (map sum_list m)"

definition addRowVector :: "matrix \<Rightarrow> matrix \<Rightarrow> matrix" where
  "addRowVector m vec = (case vec of [] \<Rightarrow> m | r # _ \<Rightarrow> map (\<lambda>row. map2 (+) row r) m)"

section \<open>Weights\<close>

record weights =
  getW :: matrix
  getInc :: matrix
  getGrads :: matrix
  getEps :: real
  getMom :: real

section \<open>FCLayer: the weight increment of the backward pass\<close>

text \<open>
  Lines 414 to 417 of \<^verbatim>\<open>FCLayer::_bprop\<close>:
  \<^verbatim>\<open>_weights[i].getInc().addProduct(prevActs_T, v,
        (!_layerGraph->isCheckingGrads()) * _weights[i].getMom(),
        _layerGraph->isCheckingGrads() ? 1 : _weights[i].getEps() / _layerGraph->getNumCases())\<close>
  with \<open>prevActs_T\<close> the transpose of the predecessor's activations. The case count
  is a C \<^verbatim>\<open>int\<close>.
\<close>

definition FCLayer_scaleThis :: "bool \<Rightarrow> weights \<Rightarrow> real" where
  "FCLayer_scaleThis isCheckingGrads w = (if \<not> isCheckingGrads then 1 else 0) * getMom w"

definition FCLayer_scaleAB :: "bool \<Rightarrow> int \<Rightarrow> weights \<Rightarrow> real" where
  "FCLayer_scaleAB isCheckingGrads numCases w =
     (if isCheckingGrads then 1 else getEps w / real_of_int numCases)"

definition FCLayer_updateInc :: "bool \<Rightarrow> int \<Rightarrow> matrix \<Rightarrow> matrix \<Rightarrow> weights \<Rightarrow> weights" where
  "FCLayer_updateInc isCheckingGrads numCases prevActs v w =
     (let prevActs_T = getTranspose prevActs
      in w\<lparr>getInc := addProduct (getInc w) prevActs_T v
                        (FCLayer_scaleThis isCheckingGrads w)
                        (FCLayer_scaleAB isCheckingGrads numCases w)\<rparr>)"

section \<open>ConvLayer: the weight gradient of the backward pass\<close>

text \<open>
  The integer fields of a convolution layer that decide how the weight gradient is
  computed. \<^verbatim>\<open>ConvLayer::ConvLayer\<close> reads them from the parameter dictionary and
  derives \<open>modules\<close>, \<open>filterPixels\<close> and \<open>imgPixels\<close>. They are C \<^verbatim>\<open>int\<close>s;
  the model uses unbounded integers and theorems state that the products fit.
\<close>

record ConvLayer_fields =
  padding :: int
  stride :: int
  filterSize :: int
  modulesX :: int
  channels :: int
  imgSize :: int
  numFilters :: int
  partialSum :: int
  modules :: int
  filterPixels :: int
  imgPixels :: int

definition ConvLayer_init ::
  "int \<Rightarrow> int \<Rightarrow> int \<Rightarrow> int \<Rightarrow> int \<Rightarrow> int \<Rightarrow> int \<Rightarrow> int \<Rightarrow> ConvLayer_fields" where
  "ConvLayer_init pad str fs mx ch im nf ps =
     \<lparr>padding = pad, stride = str, filterSize = fs, modulesX = mx, channels = ch,
      imgSize = im, numFilters = nf, partialSum = ps,
      modules = mx * mx, filterPixels = fs * fs, imgPixels = im * im\<rparr>"

text \<open>
  The calls that lines 503 to 511 of \<^verbatim>\<open>ConvLayer::_bprop\<close> issue to compute the
  weight gradient, in order. The kernels themselves are external.
\<close>

datatype weightGrad_call =
    ConvWeightActs_partialSum int    \<comment> \<open>into \<open>tmp\<close>, with the \<open>partialSum\<close> argument\<close>
  | Reshape_tmp int int
  | Sum_tmp_into_grads
  | Reshape_grads int int
  | ConvWeightActs_full              \<comment> \<open>one call, straight into the gradient buffer\<close>

definition ConvLayer_weightGradCalls :: "ConvLayer_fields \<Rightarrow> weightGrad_call list" where
  "ConvLayer_weightGradCalls c =
     (if partialSum c > 0 \<and> partialSum c < modules c then
        [ConvWeightActs_partialSum (partialSum c),
         Reshape_tmp (modules c div partialSum c) (channels c * filterPixels c * numFilters c),
         Sum_tmp_into_grads,
         Reshape_grads (channels c * filterPixels c) (numFilters c)]
      else [ConvWeightActs_full])"

fun isPartialSumCall :: "weightGrad_call \<Rightarrow> bool" where
  "isPartialSumCall (ConvWeightActs_partialSum n) = True"
| "isPartialSumCall call = False"

definition chunkedPath :: "weightGrad_call list \<Rightarrow> bool" where
  "chunkedPath calls = list_ex isPartialSumCall calls"

definition fitsInt :: "int \<Rightarrow> bool" where
  "fitsInt x = (- (2 ^ 31) \<le> x \<and> x < 2 ^ 31)"

section \<open>Misuse of the generic entry points\<close>

text \<open>
  \<^verbatim>\<open>DataLayer::fprop()\<close> and \<^verbatim>\<open>Cost::_bprop(NVMatrix&)\<close> consist of a single
  \<^verbatim>\<open>throw\<close>. The state of the layer graph is the argument that would be
  threaded through; an exception leaves no new state.
\<close>

definition DataLayer_fprop :: "'s \<Rightarrow> error + 's" where
  "DataLayer_fprop s = Inl (Thrown ''No dava given!'')"

definition Cost__bprop :: "matrix \<Rightarrow> 's \<Rightarrow> error + 's" where
  "Cost__bprop v s = Inl (Thrown ''Cost does not support _bprop(NVMatrix&)'')"

section \<open>Layers and the construction of the layer graph\<close>

datatype layer_kind = FCLayer | ConvLayer | PoolLayer | DataLayer | SoftmaxLayer | LogregCost

text \<open>
  The entries of a layer's parameter dictionary that graph construction reads:
  the type tag, the indices of the input layers, the coefficient of a cost layer, the
  pooling type of a pooling layer, the bias matrix of a fully-connected layer and the
  index of a data layer's matrix in the data set (a C \<^verbatim>\<open>int\<close>).
\<close>

record layerParams =
  ptype :: string
  inputs :: "nat list"
  coeffP :: real
  poolP :: string
  biasesP :: matrix
  dataIdxP :: int

text \<open>
  The fields of \<^verbatim>\<open>Layer\<close> that are fixed once the graph is built. Layers are
  referred to by their index in \<^verbatim>\<open>LayerGraph::_layers\<close>; \<open>prev\<close> and \<open>nxt\<close>
  are the vectors \<^verbatim>\<open>_prev\<close> and \<^verbatim>\<open>_next\<close>. The fields that a pass mutates
  (counters and buffers) are kept apart, in \<open>lstate\<close> below.
\<close>

record layer =
  kind :: layer_kind
  prev :: "nat list"
  nxt :: "nat list"
  numGradProducersNext :: nat
  propagateGrad :: bool
  gradProducer :: bool
  trans :: bool
  coeff :: real
  pool :: string
  dataIdx :: int

text \<open>
  \<^verbatim>\<open>Layer::Layer\<close>: every input index is looked up with
  \<^verbatim>\<open>layerGraph->getLayer(idx)\<close> among the layers constructed so far.
\<close>

definition Layer_init ::
  "layer list \<Rightarrow> layerParams \<Rightarrow> layer_kind \<Rightarrow> bool \<Rightarrow> bool \<Rightarrow> bool \<Rightarrow> error + layer" where
  "Layer_init layers p k pg gp tr =
     (if list_all (\<lambda>idx. idx < length layers) (inputs p)
      then Inr \<lparr>kind = k, prev = inputs p, nxt = [], numGradProducersNext = 0,
                propagateGrad = pg, gradProducer = gp, trans = tr, coeff = 0, pool = [],
                dataIdx = 0\<rparr>
      else Inl OutOfRange)"

text \<open>\<^verbatim>\<open>Cost::Cost\<close>: a cost produces gradient only if its coefficient is not zero.\<close>

definition Cost_init ::
  "layer list \<Rightarrow> layerParams \<Rightarrow> layer_kind \<Rightarrow> bool \<Rightarrow> bool \<Rightarrow> bool \<Rightarrow> error + layer" where
  "Cost_init layers p k pg gp tr =
     (case Layer_init layers p k pg gp tr of
        Inl e \<Rightarrow> Inl e
      | Inr l \<Rightarrow> Inr (l\<lparr>coeff := coeffP p, gradProducer := (coeffP p \<noteq> 0)\<rparr>))"

text \<open>The chain of type tests in \<^verbatim>\<open>LayerGraph::LayerGraph\<close> with the constructors it calls.\<close>

definition newLayer :: "layer list \<Rightarrow> layerParams \<Rightarrow> error + layer" where
  "newLayer layers p =
     (if ptype p = ''fc'' then
        (case Layer_init layers p FCLayer True True True of
           Inl e \<Rightarrow> Inl e
         | Inr l \<Rightarrow> if getNumRows (biasesP p) = 1 then Inr l
                    else Inl (AssertionFailed ''_biases.getNumRows() == 1''))
      else if ptype p = ''conv'' then
        (case Layer_init layers p ConvLayer True True False of
           Inl e \<Rightarrow> Inl e
         | Inr l \<Rightarrow> if length (prev l) = 1 then Inr l
                    else Inl (AssertionFailed ''_prev.size() == 1''))
      else if ptype p = ''pool'' then
        (case Layer_init layers p PoolLayer True True False of
           Inl e \<Rightarrow> Inl e
         | Inr l \<Rightarrow> if poolP p \<noteq> ''max'' \<and> poolP p \<noteq> ''avg''
                    then Inl (Thrown (''Unknown pooling type '' @ poolP p))
                    else Inr (l\<lparr>pool := poolP p\<rparr>))
      else if ptype p = ''data'' then
        (case Layer_init layers p DataLayer False False False of
           Inl e \<Rightarrow> Inl e
         | Inr l \<Rightarrow> Inr (l\<lparr>dataIdx := dataIdxP p\<rparr>))
      else if ptype p = ''softmax'' then Layer_init layers p SoftmaxLayer True True True
      else if ptype p = ''cost.logreg'' then Cost_init layers p LogregCost True True False
      else Inl (Thrown (''Unknown layer type '' @ ptype p)))"

fun buildLayers :: "layer list \<Rightarrow> layerParams list \<Rightarrow> error + layer list" where
  "buildLayers layers [] = Inr layers"
| "buildLayers layers (p # ps) =
     (case newLayer layers p of
        Inl e \<Rightarrow> Inl e
      | Inr l \<Rightarrow> buildLayers (layers @ [l]) ps)"

text \<open>\<^verbatim>\<open>Layer::addNext\<close>, called on layer \<open>this\<close> with the successor \<open>l\<close>.\<close>

definition addNext :: "nat \<Rightarrow> nat \<Rightarrow> layer list \<Rightarrow> layer list" where
  "addNext this l layers =
     layers[this := (layers ! this)
        \<lparr>nxt := nxt (layers ! this) @ [l],
         numGradProducersNext := numGradProducersNext (layers ! this)
                                  + (if gradProducer (layers ! l) then 1 else 0)\<rparr>]"

text \<open>The two nested loops that connect the forward links.\<close>

definition connectLayer :: "nat \<Rightarrow> layer list \<Rightarrow> layer list" where
  "connectLayer i layers = fold (\<lambda>p. addNext p i) (prev (layers ! i)) layers"

definition connectForward :: "layer list \<Rightarrow> layer list" where
  "connectForward layers = fold connectLayer [0..<length layers] layers"

definition LayerGraph_init :: "layerParams list \<Rightarrow> error + layer list" where
  "LayerGraph_init layerParams =
     (case buildLayers [] layerParams of
        Inl e \<Rightarrow> Inl e
      | Inr layers \<Rightarrow> Inr (connectForward layers))"


definition costs :: "layer list \<Rightarrow> nat list" where
  "costs layers = filter (\<lambda>i. kind (layers ! i) = LogregCost) [0..<length layers]"

definition builtFrom :: "layerParams list \<Rightarrow> layer list \<Rightarrow> bool" where
  "builtFrom ps ls = (length ls = length ps \<and>
     (\<forall>i < length ls. prev (ls ! i) = inputs (ps ! i) \<and> nxt (ls ! i) = [] \<and>
        (\<forall>x \<in> set (prev (ls ! i)). x < i)))"

section \<open>The state of a pass\<close>

text \<open>
  The fields of a layer that the passes mutate, and the state of the whole graph;
  \<open>err\<close> is the field \<^verbatim>\<open>_err\<close> of a cost layer. Two logs are not in the C++
  code. \<open>fpropLog\<close> lists the layers whose layer-specific \<^verbatim>\<open>_fprop\<close> has run, in
  order of execution. \<open>gradLog\<close> records the backward pass in order of execution:
  \<open>Contributed p g\<close> when the \<^verbatim>\<open>_bprop\<close> of a successor writes its gradient \<open>g\<close>
  into the activation-gradient buffer of layer \<open>p\<close>, and \<open>Handed i v\<close> when
  \<^verbatim>\<open>Layer::bprop(NVMatrix&)\<close> is called on layer \<open>i\<close> with the buffer \<open>v\<close>, which
  it hands to the layer's \<^verbatim>\<open>_bprop\<close>. \<open>bpropLog\<close> is the list of the hand-overs
  alone. The counters are C \<^verbatim>\<open>int\<close>s that start at zero and are only incremented;
  they are natural numbers here.
\<close>

datatype gradEvent = Contributed nat matrix | Handed nat matrix

record lstate =
  rcvdFInputs :: nat
  rcvdBInputs :: nat
  acts :: matrix
  actGrads :: matrix
  weightsOf :: "weights list"
  biasesOf :: weights
  err :: "real list"

record graphState =
  layerStates :: "lstate list"
  fpropLog :: "nat list"
  gradLog :: "gradEvent list"
  isCheckingGrads :: bool
  numCases :: int
  saveBwdActs :: bool

fun handed :: "gradEvent \<Rightarrow> (nat \<times> matrix) list" where
  "handed (Handed i v) = [(i, v)]"
| "handed (Contributed p g) = []"

definition bpropLog :: "graphState \<Rightarrow> (nat \<times> matrix) list" where
  "bpropLog s = concat (map handed (gradLog s))"

definition updLayer :: "nat \<Rightarrow> (lstate \<Rightarrow> lstate) \<Rightarrow> graphState \<Rightarrow> graphState" where
  "updLayer i f s = s\<lparr>layerStates := (layerStates s)[i := f (layerStates s ! i)]\<rparr>"

definition getRcvdFInputs :: "graphState \<Rightarrow> nat \<Rightarrow> nat" where
  "getRcvdFInputs s i = rcvdFInputs (layerStates s ! i)"

definition getRcvdBInputs :: "graphState \<Rightarrow> nat \<Rightarrow> nat" where
  "getRcvdBInputs s i = rcvdBInputs (layerStates s ! i)"

definition getActs :: "graphState \<Rightarrow> nat \<Rightarrow> matrix" where
  "getActs s i = acts (layerStates s ! i)"

definition getActGrads :: "graphState \<Rightarrow> nat \<Rightarrow> matrix" where
  "getActGrads s i = actGrads (layerStates s ! i)"

text \<open>\<^verbatim>\<open>LayerGraph::reset\<close>, which calls \<^verbatim>\<open>Layer::reset\<close> on every layer.\<close>

definition reset :: "graphState \<Rightarrow> graphState" where
  "reset s = s\<lparr>layerStates :=
                 map (\<lambda>l. l\<lparr>rcvdFInputs := 0, rcvdBInputs := 0\<rparr>) (layerStates s)\<rparr>"

text \<open>
  The data set handed to \<^verbatim>\<open>LayerGraph::fprop(Data&)\<close>: its matrices and its
  number of cases. \<^verbatim>\<open>LayerGraph::setData\<close> keeps a pointer to it, through which
  \<^verbatim>\<open>LayerGraph::getNumCases\<close> reads the number of cases; the field \<open>numCases\<close>
  of the state is that number.
\<close>

record Data =
  getData :: "matrix list"
  getNumCases :: int

definition setData :: "Data \<Rightarrow> graphState \<Rightarrow> graphState" where
  "setData d s = s\<lparr>numCases := getNumCases d\<rparr>"

section \<open>The external kernels\<close>

text \<open>
  The kernels that the forward and backward computations launch are external. Each
  is a function from the buffers it reads to the buffer it produces. Forward:
  \<open>activate\<close> (the neuron of the layer), \<open>convFilterActs\<close>, \<open>convLocalPoolMax\<close>
  and \<open>convLocalPoolAvg\<close> (\<^verbatim>\<open>convLocalPool\<close> with the one or the other
  aggregator) and \<open>kLogregCost\<close>, which fills the two row vectors
  \<^verbatim>\<open>trueLabelLogProbs\<close> and \<^verbatim>\<open>correctProbs\<close>. Backward: \<open>computeInputGrads\<close>
  (the neuron's gradient, from the layer's activations and the incoming gradient),
  \<open>convImgActs\<close>, \<open>convWeightActs\<close> (the whole weight gradient of a convolution
  layer, see \<open>ConvLayer_weightGradCalls\<close>), \<open>convLocalMaxUndo\<close>,
  \<open>convLocalAvgUndo\<close>, \<open>kSoftmaxGrads\<close> and \<open>kLogregCostGrads\<close>.
\<close>

record kernels =
  activate :: "matrix \<Rightarrow> matrix"
  convFilterActs :: "matrix \<Rightarrow> matrix \<Rightarrow> matrix"
  convLocalPoolMax :: "matrix \<Rightarrow> matrix"
  convLocalPoolAvg :: "matrix \<Rightarrow> matrix"
  kLogregCost :: "matrix \<Rightarrow> matrix \<Rightarrow> matrix \<Rightarrow> int \<Rightarrow> matrix \<times> matrix"
  computeInputGrads :: "matrix \<Rightarrow> matrix \<Rightarrow> matrix"
  convImgActs :: "matrix \<Rightarrow> matrix \<Rightarrow> matrix"
  convWeightActs :: "matrix \<Rightarrow> matrix \<Rightarrow> matrix"
  convLocalMaxUndo :: "matrix \<Rightarrow> matrix \<Rightarrow> matrix \<Rightarrow> matrix"
  convLocalAvgUndo :: "matrix \<Rightarrow> matrix"
  kSoftmaxGrads :: "matrix \<Rightarrow> matrix \<Rightarrow> matrix"
  kLogregCostGrads :: "matrix \<Rightarrow> matrix \<Rightarrow> int \<Rightarrow> real \<Rightarrow> matrix"

section \<open>The forward computations of the layers\<close>

text \<open>
  The layer-specific \<^verbatim>\<open>_fprop(NVMatrixV& v)\<close> of every layer class, as a function
  from the vector \<open>v\<close> of input buffers and the layer's own fields to the layer's
  new fields. Reading \<open>v\<close> or the weight list at an index that does not exist is
  undefined in C++ and answered with \<open>OutOfRange\<close>. The assertions on the memory
  layout of the buffers (contiguity, leading dimension) are left out: the model has
  no device representation.

  \<^verbatim>\<open>SoftmaxLayer::_fprop\<close> reads its first input \<^verbatim>\<open>*v[0]\<close> and returns the new
  activation buffer.
\<close>

definition SoftmaxLayer__fprop :: "matrix list \<Rightarrow> error + matrix" where
  "SoftmaxLayer__fprop v =
     (case v of
        [] \<Rightarrow> Inl OutOfRange
      | input # _ \<Rightarrow>
          let mx = max1 input;
              acts1 = addVector input mx (- 1);
              acts2 = apply_EXP acts1;
              sm = sum1 acts2;
              acts3 = eltwiseDivideByVector acts2 sm
          in Inr acts3)"

text \<open>
  \<^verbatim>\<open>FCLayer::multByInput\<close> on the activation buffer \<open>a\<close>, and the loop of
  \<^verbatim>\<open>FCLayer::_fprop\<close> that calls it for every input with the index of the input.
\<close>

definition FCLayer_multByInput :: "weights list \<Rightarrow> matrix \<Rightarrow> nat \<Rightarrow> matrix \<Rightarrow> error + matrix" where
  "FCLayer_multByInput ws input idx a =
     (if idx < length ws then
        (if idx = 0 then Inr (rightMult input (getW (ws ! idx)))
         else Inr (addProduct a input (getW (ws ! idx)) 1 1))
      else Inl OutOfRange)"

fun FCLayer_multLoop :: "weights list \<Rightarrow> nat \<Rightarrow> matrix list \<Rightarrow> matrix \<Rightarrow> error + matrix" where
  "FCLayer_multLoop ws i [] a = Inr a"
| "FCLayer_multLoop ws i (input # v) a =
     (case FCLayer_multByInput ws input i a of
        Inl e \<Rightarrow> Inl e
      | Inr a' \<Rightarrow> FCLayer_multLoop ws (i + 1) v a')"

definition FCLayer__fprop :: "kernels \<Rightarrow> matrix list \<Rightarrow> lstate \<Rightarrow> error + lstate" where
  "FCLayer__fprop K v l =
     (case FCLayer_multLoop (weightsOf l) 0 v (acts l) of
        Inl e \<Rightarrow> Inl e
      | Inr a \<Rightarrow> Inr (l\<lparr>acts := activate K (addRowVector a (getW (biasesOf l)))\<rparr>))"

text \<open>
  \<^verbatim>\<open>ConvLayer::_fprop\<close>. The single \<^verbatim>\<open>Weights\<close> object of a convolution layer
  is entry 0 of \<open>weightsOf\<close>.
\<close>

definition ConvLayer__fprop :: "kernels \<Rightarrow> matrix list \<Rightarrow> lstate \<Rightarrow> error + lstate" where
  "ConvLayer__fprop K v l =
     (case v of
        [] \<Rightarrow> Inl OutOfRange
      | images # _ \<Rightarrow>
          (case weightsOf l of
             [] \<Rightarrow> Inl OutOfRange
           | w # _ \<Rightarrow>
               Inr (l\<lparr>acts := activate K
                      (addVector (convFilterActs K images (getW w)) (getW (biasesOf l)) 1)\<rparr>)))"

text \<open>\<^verbatim>\<open>PoolLayer::_fprop\<close>, for a layer with the pooling type \<open>pl\<close>.\<close>

definition PoolLayer__fprop :: "kernels \<Rightarrow> string \<Rightarrow> matrix list \<Rightarrow> lstate \<Rightarrow> error + lstate" where
  "PoolLayer__fprop K pl v l =
     (case v of
        [] \<Rightarrow> Inl OutOfRange
      | images # _ \<Rightarrow>
          if pl = ''max'' then Inr (l\<lparr>acts := convLocalPoolMax K images\<rparr>)
          else if pl = ''avg'' then Inr (l\<lparr>acts := convLocalPoolAvg K images\<rparr>)
          else Inr l)"

text \<open>
  \<^verbatim>\<open>DataLayer::_fprop\<close>, whose argument is the vector of the matrices of the data
  set: the layer's activations become the matrix at \<^verbatim>\<open>_dataIdx\<close>.
\<close>

definition DataLayer__fprop :: "int \<Rightarrow> matrix list \<Rightarrow> lstate \<Rightarrow> error + lstate" where
  "DataLayer__fprop idx data l =
     (if 0 \<le> idx \<and> nat idx < length data then Inr (l\<lparr>acts := data ! nat idx\<rparr>)
      else Inl OutOfRange)"

text \<open>
  \<^verbatim>\<open>LogregCost::_fprop\<close>, with \<open>nc\<close> the number of cases: the labels are the
  first input and the probabilities the second.
\<close>

definition LogregCost__fprop :: "kernels \<Rightarrow> int \<Rightarrow> matrix list \<Rightarrow> lstate \<Rightarrow> error + lstate" where
  "LogregCost__fprop K nc v l =
     (case v of
        labels # probs # _ \<Rightarrow>
          let maxProbs = max0 probs;
              (trueLabelLogProbs, correctProbs) = kLogregCost K probs labels maxProbs nc
          in Inr (l\<lparr>err := [- sumAll trueLabelLogProbs, real_of_int nc - sumAll correctProbs]\<rparr>)
      | _ \<Rightarrow> Inl OutOfRange)"

text \<open>The virtual \<^verbatim>\<open>_fprop\<close>, on a layer with the fixed fields \<open>L\<close>.\<close>

definition Layer__fprop ::
  "kernels \<Rightarrow> layer \<Rightarrow> int \<Rightarrow> matrix list \<Rightarrow> lstate \<Rightarrow> error + lstate" where
  "Layer__fprop K L nc v l =
     (case kind L of
        FCLayer \<Rightarrow> FCLayer__fprop K v l
      | ConvLayer \<Rightarrow> ConvLayer__fprop K v l
      | PoolLayer \<Rightarrow> PoolLayer__fprop K (pool L) v l
      | DataLayer \<Rightarrow> DataLayer__fprop (dataIdx L) v l
      | SoftmaxLayer \<Rightarrow>
          (case SoftmaxLayer__fprop v of
             Inl e \<Rightarrow> Inl e
           | Inr a \<Rightarrow> Inr (l\<lparr>acts := a\<rparr>))
      | LogregCost \<Rightarrow> LogregCost__fprop K nc v l)"

section \<open>The forward pass\<close>

text \<open>
  \<^verbatim>\<open>Layer::fprop()\<close>, \<^verbatim>\<open>Layer::fprop(NVMatrixV&)\<close> and
  \<^verbatim>\<open>Layer::fpropNext()\<close> call each other. \<^verbatim>\<open>fprop()\<close> gathers the activation
  buffers of the predecessors, in the order of \<^verbatim>\<open>_prev\<close>, and is virtual: a data
  layer overrides it with a \<^verbatim>\<open>throw\<close>. \<^verbatim>\<open>fprop(NVMatrixV&)\<close> asserts one buffer
  for every predecessor, sets the counter, runs the layer's \<^verbatim>\<open>_fprop\<close> (which is
  entered in \<open>fpropLog\<close> when it has returned) and propagates. The transpose flags,
  which only select a view of a buffer, are left out.

  The vectors \<^verbatim>\<open>_prev\<close> and \<^verbatim>\<open>_next\<close> hold pointers in the C++ code and indices
  here. The recursion of the C++ code follows the successor vectors. Construction
  only produces successors with a larger index than the layer itself (a layer can
  name as input only a layer that already exists), which is what makes the recursion
  terminate; \<open>fpropNext\<close> answers \<open>BadTopology\<close> for any other edge.
\<close>

function fprop :: "kernels \<Rightarrow> layer list \<Rightarrow> nat \<Rightarrow> graphState \<Rightarrow> error + graphState"
  and Layer_fpropV ::
    "kernels \<Rightarrow> layer list \<Rightarrow> nat \<Rightarrow> matrix list \<Rightarrow> graphState \<Rightarrow> error + graphState"
  and fpropNext ::
    "kernels \<Rightarrow> layer list \<Rightarrow> nat \<Rightarrow> nat list \<Rightarrow> graphState \<Rightarrow> error + graphState"
where
  "fprop K layers i s =
     (if kind (layers ! i) = DataLayer then DataLayer_fprop s
      else
        let s1 = updLayer i (\<lambda>l. l\<lparr>rcvdFInputs := rcvdFInputs l + 1\<rparr>) s
        in if getRcvdFInputs s1 i = length (prev (layers ! i))
           then Layer_fpropV K layers i (map (getActs s1) (prev (layers ! i))) s1
           else Inr s1)"
| "Layer_fpropV K layers i v s =
     (if length v = length (prev (layers ! i)) then
        let s1 = updLayer i (\<lambda>l. l\<lparr>rcvdFInputs := length (prev (layers ! i))\<rparr>) s
        in case Layer__fprop K (layers ! i) (numCases s1) v (layerStates s1 ! i) of
             Inl e \<Rightarrow> Inl e
           | Inr l' \<Rightarrow>
               fpropNext K layers i (nxt (layers ! i))
                 ((updLayer i (\<lambda>l. l') s1)\<lparr>fpropLog := fpropLog s1 @ [i]\<rparr>)
      else Inl (AssertionFailed ''v.size() == _prev.size()''))"
| "fpropNext K layers i [] s = Inr s"
| "fpropNext K layers i (j # js) s =
     (if i < j \<and> j < length layers then
        (case fprop K layers j s of
           Inl e \<Rightarrow> Inl e
         | Inr s' \<Rightarrow> fpropNext K layers i js s')
      else Inl BadTopology)"
  by pat_completeness auto
termination
  by (relation "inv_image (less_than <*lex*> less_than <*lex*> less_than)
        (\<lambda>x. case x of
            Inl (K, layers, i, s) \<Rightarrow> (length layers - i, 2::nat, 0::nat)
          | Inr (Inl (K, layers, i, v, s)) \<Rightarrow> (length layers - i, 1, 0)
          | Inr (Inr (K, layers, i, js, s)) \<Rightarrow> (length layers - i, 0, length js))")
     auto




section \<open>Counting the forward pass\<close>

text \<open>
  Quantities read off the state, used to state what a forward pass does:
  \<open>fpropCount s k\<close> is the number of times the \<^verbatim>\<open>_fprop\<close> of layer \<open>k\<close> has
  run, and \<open>delivered layers s k\<close> is the number of \<^verbatim>\<open>fprop()\<close> signals that the
  layers which have run send to layer \<open>k\<close>, one for every occurrence of \<open>k\<close> in
  their successor vectors.
\<close>

definition fpropCount :: "graphState \<Rightarrow> nat \<Rightarrow> nat" where
  "fpropCount s k = count_list (fpropLog s) k"

definition delivered :: "layer list \<Rightarrow> graphState \<Rightarrow> nat \<Rightarrow> nat" where
  "delivered layers s k =
     (\<Sum>p < length layers. fpropCount s p * count_list (nxt (layers ! p)) k)"


text \<open>
  The reads of a layer's \<^verbatim>\<open>_fprop\<close> are in range: a fully-connected layer has a
  weight matrix for every input, a convolution layer has its weights, a cost layer
  has the two inputs it reads, and a convolution, pooling or softmax layer has the
  one input it reads. \<open>fpropReady\<close> says so of every layer of the graph, and that
  the state has the fields of every layer.
\<close>

definition readable :: "layer \<Rightarrow> lstate \<Rightarrow> bool" where
  "readable L l =
     (case kind L of
        FCLayer \<Rightarrow> length (prev L) \<le> length (weightsOf l)
      | ConvLayer \<Rightarrow> prev L \<noteq> [] \<and> weightsOf l \<noteq> []
      | PoolLayer \<Rightarrow> prev L \<noteq> []
      | SoftmaxLayer \<Rightarrow> prev L \<noteq> []
      | LogregCost \<Rightarrow> 2 \<le> length (prev L)
      | DataLayer \<Rightarrow> True)"

definition fpropReady :: "layer list \<Rightarrow> graphState \<Rightarrow> bool" where
  "fpropReady layers s =
     (length (layerStates s) = length layers \<and>
      (\<forall>i < length layers. readable (layers ! i) (layerStates s ! i)))"





section \<open>The backward pass\<close>

text \<open>
  Modelled from the spec: every kernel that writes a predecessor's
  activation-gradient buffer comes in two forms, selected by
  \<^verbatim>\<open>_prev[i]->getRcvdBInputs() == 0\<close>: one overwrites the target with the gradient
  \<open>g\<close>, the other adds \<open>g\<close> to the target. \<open>contribute\<close> is this choice on the
  predecessor's own fields; \<open>countBInput\<close> is the increment of \<^verbatim>\<open>Layer::bprop()\<close>.
  \<open>writeGrad\<close> is the write into the buffer of layer \<open>p\<close>, entered in \<open>gradLog\<close>.
\<close>

definition contribute :: "matrix \<Rightarrow> lstate \<Rightarrow> lstate" where
  "contribute g l =
     (if rcvdBInputs l = 0 then l\<lparr>actGrads := g\<rparr> else l\<lparr>actGrads := add (actGrads l) g\<rparr>)"

definition countBInput :: "lstate \<Rightarrow> lstate" where
  "countBInput l = l\<lparr>rcvdBInputs := rcvdBInputs l + 1\<rparr>"

definition logContribution :: "nat \<Rightarrow> matrix \<Rightarrow> graphState \<Rightarrow> graphState" where
  "logContribution p g s = s\<lparr>gradLog := gradLog s @ [Contributed p g]\<rparr>"

definition writeGrad :: "nat \<Rightarrow> matrix \<Rightarrow> graphState \<Rightarrow> graphState" where
  "writeGrad p g s = logContribution p g (updLayer p (contribute g) s)"

text \<open>
  The same choice as \<^verbatim>\<open>FCLayer::_bprop\<close> writes it, lines 406 to 411:
  \<^verbatim>\<open>v.rightMult(weights_T, target)\<close> or \<^verbatim>\<open>target.addProduct(v, weights_T)\<close>.
\<close>

definition FCLayer_contribute :: "matrix \<Rightarrow> matrix \<Rightarrow> lstate \<Rightarrow> lstate" where
  "FCLayer_contribute v w l =
     (let weights_T = getTranspose w
      in if rcvdBInputs l = 0 then l\<lparr>actGrads := rightMult v weights_T\<rparr>
         else l\<lparr>actGrads := addProduct (actGrads l) v weights_T 1 1\<rparr>)"

text \<open>\<^verbatim>\<open>Layer::truncActGrads\<close>, on layer \<open>i\<close>.\<close>

definition truncActGrads :: "nat \<Rightarrow> graphState \<Rightarrow> graphState" where
  "truncActGrads i s =
     (if \<not> saveBwdActs s then updLayer i (\<lambda>l. l\<lparr>actGrads := NVMatrix_truncate (actGrads l)\<rparr>) s else s)"

text \<open>
  \<open>bprop\<close> is the virtual \<^verbatim>\<open>bprop()\<close>: \<^verbatim>\<open>DataLayer::bprop\<close> (empty),
  \<^verbatim>\<open>LogregCost::bprop\<close>, and \<^verbatim>\<open>Layer::bprop()\<close> for the other layers.
  \<open>Layer_bpropV\<close> is \<^verbatim>\<open>Layer::bprop(NVMatrix&)\<close> called on the layer's own
  \<^verbatim>\<open>_actGrads\<close>, followed by the layer's \<^verbatim>\<open>_bprop\<close>; \<open>FCLayer_loop\<close> is the
  loop of \<^verbatim>\<open>FCLayer::_bprop\<close> over the predecessors, \<open>k\<close> being the loop index.
  The gradient \<open>v\<close> is a reference to the layer's own buffer, so it is read from the
  state. The transpose flags and the assertions on the memory layout of the buffers
  (contiguity, leading dimension) are left out. The single \<^verbatim>\<open>Weights\<close> object of a
  convolution layer is entry 0 of \<open>weightsOf\<close>.

  A predecessor has a smaller index than the layer itself (construction allows
  nothing else), which is what makes the recursion terminate; any other edge is
  answered with \<open>BadTopology\<close>.
\<close>

function bprop :: "kernels \<Rightarrow> layer list \<Rightarrow> nat \<Rightarrow> graphState \<Rightarrow> error + graphState"
  and Layer_bpropV :: "kernels \<Rightarrow> layer list \<Rightarrow> nat \<Rightarrow> graphState \<Rightarrow> error + graphState"
  and FCLayer_loop ::
    "kernels \<Rightarrow> layer list \<Rightarrow> nat \<Rightarrow> nat \<Rightarrow> nat list \<Rightarrow> graphState \<Rightarrow> error + graphState"
where
  "bprop K layers i s =
     (case kind (layers ! i) of
        DataLayer \<Rightarrow> Inr s
      | LogregCost \<Rightarrow>
          (case prev (layers ! i) of
             p0 # p1 # _ \<Rightarrow>
               let s1 =
                     (if coeff (layers ! i) \<noteq> 0 then
                        let labels = getActs s p0;
                            probs = getActs s p1
                        in writeGrad p1
                             (kLogregCostGrads K probs labels (numCases s) (coeff (layers ! i))) s
                      else s)
               in if p1 < i then bprop K layers p1 s1 else Inl BadTopology
           | _ \<Rightarrow> Inl OutOfRange)
      | _ \<Rightarrow>
          let s1 = updLayer i countBInput s
          in if getRcvdBInputs s1 i = numGradProducersNext (layers ! i)
             then Layer_bpropV K layers i s1
             else Inr s1)"
| "Layer_bpropV K layers i s =
     (let v = getActGrads s i;
          s0 = s\<lparr>gradLog := gradLog s @ [Handed i v]\<rparr>
      in case kind (layers ! i) of
           FCLayer \<Rightarrow>
             let v1 = computeInputGrads K (getActs s0 i) v;
                 s1 = updLayer i (\<lambda>l. l\<lparr>actGrads := v1,
                                          biasesOf := (biasesOf l)\<lparr>getGrads := sum0 v1\<rparr>\<rparr>) s0
             in (case FCLayer_loop K layers i 0 (prev (layers ! i)) s1 of
                   Inl e \<Rightarrow> Inl e
                 | Inr s2 \<Rightarrow> Inr (truncActGrads i s2))
         | ConvLayer \<Rightarrow>
             (case prev (layers ! i) of
                [] \<Rightarrow> Inl OutOfRange
              | p # _ \<Rightarrow>
                  (case weightsOf (layerStates s0 ! i) of
                     [] \<Rightarrow> Inl OutOfRange
                   | w # ws \<Rightarrow>
                       let v1 = computeInputGrads K (getActs s0 i) v;
                           s1 = updLayer i (\<lambda>l. l\<lparr>actGrads := v1,
                                  biasesOf := (biasesOf l)\<lparr>getGrads := sum1 v1\<rparr>\<rparr>) s0;
                           prevActs = getActs s1 p;
                           s2 = (if propagateGrad (layers ! p)
                                 then writeGrad p (convImgActs K v1 (getW w)) s1
                                 else s1);
                           s3 = updLayer i (\<lambda>l. l\<lparr>weightsOf :=
                                  w\<lparr>getGrads := convWeightActs K prevActs v1\<rparr> # ws\<rparr>) s2;
                           s4 = truncActGrads i s3
                       in if p < i then bprop K layers p s4 else Inl BadTopology))
         | PoolLayer \<Rightarrow>
             (case prev (layers ! i) of
                [] \<Rightarrow> Inl OutOfRange
              | p # _ \<Rightarrow>
                  if propagateGrad (layers ! p) then
                    let s1 = (if pool (layers ! i) = ''max''
                              then writeGrad p
                                     (convLocalMaxUndo K (getActs s0 p) v (getActs s0 i)) s0
                              else if pool (layers ! i) = ''avg''
                              then writeGrad p (convLocalAvgUndo K v) s0
                              else s0);
                        s2 = truncActGrads i s1
                    in if p < i then bprop K layers p s2 else Inl BadTopology
                  else Inr s0)
         | SoftmaxLayer \<Rightarrow>
             (case prev (layers ! i) of
                [] \<Rightarrow> Inl OutOfRange
              | p # ps \<Rightarrow>
                  if propagateGrad (layers ! p) then
                    if ps \<noteq> [] then Inl (AssertionFailed ''_prev.size() == 1'')
                    else
                      let s1 = writeGrad p (kSoftmaxGrads K v (getActs s0 i)) s0;
                          s2 = truncActGrads i s1
                      in if p < i then bprop K layers p s2 else Inl BadTopology
                  else Inr s0)
         | DataLayer \<Rightarrow> Inr s0
         | LogregCost \<Rightarrow> Cost__bprop v s0)"
| "FCLayer_loop K layers i k [] s = Inr s"
| "FCLayer_loop K layers i k (p # ps) s =
     (if k < length (weightsOf (layerStates s ! i)) then
        let v = getActGrads s i;
            w = weightsOf (layerStates s ! i) ! k;
            s1 = (if propagateGrad (layers ! p)
                  then logContribution p (rightMult v (getTranspose (getW w)))
                         (updLayer p (FCLayer_contribute v (getW w)) s)
                  else s);
            prevActs = getActs s1 p;
            s2 = updLayer i (\<lambda>l. l\<lparr>weightsOf := (weightsOf l)
                   [k := FCLayer_updateInc (isCheckingGrads s1) (numCases s1) prevActs v w]\<rparr>) s1
        in if p < i then
             (case bprop K layers p s2 of
                Inl e \<Rightarrow> Inl e
              | Inr s3 \<Rightarrow> FCLayer_loop K layers i (k + 1) ps s3)
           else Inl BadTopology
      else Inl OutOfRange)"
  by pat_completeness auto
termination
  by (relation "inv_image (less_than <*lex*> less_than <*lex*> less_than)
        (\<lambda>x. case x of
            Inl (K, layers, i, s) \<Rightarrow> (i, 2::nat, 0::nat)
          | Inr (Inl (K, layers, i, s)) \<Rightarrow> (i, 1, 0)
          | Inr (Inr (K, layers, i, k, ps, s)) \<Rightarrow> (i, 0, length ps))")
     auto

text \<open>\<^verbatim>\<open>LayerGraph::bprop\<close>: every cost layer in turn, then \<^verbatim>\<open>reset\<close>.\<close>

fun bpropCosts :: "kernels \<Rightarrow> layer list \<Rightarrow> nat list \<Rightarrow> graphState \<Rightarrow> error + graphState" where
  "bpropCosts K layers [] s = Inr s"
| "bpropCosts K layers (c # cs) s =
     (case bprop K layers c s of
        Inl e \<Rightarrow> Inl e
      | Inr s' \<Rightarrow> bpropCosts K layers cs s')"

definition LayerGraph_bprop :: "kernels \<Rightarrow> layer list \<Rightarrow> graphState \<Rightarrow> error + graphState" where
  "LayerGraph_bprop K layers s =
     (case bpropCosts K layers (costs layers) s of
        Inl e \<Rightarrow> Inl e
      | Inr s' \<Rightarrow> Inr (reset s'))"

section \<open>Reading the log of the backward pass\<close>

text \<open>
  \<open>contribsTo p es\<close> lists the gradients that the events \<open>es\<close> contribute to layer
  \<open>p\<close>, in order of arrival, and \<open>sumContributions\<close> is their sum, taken the way the
  buffer accumulates it: starting from the first.
\<close>

fun contribsTo :: "nat \<Rightarrow> gradEvent list \<Rightarrow> matrix list" where
  "contribsTo p [] = []"
| "contribsTo p (Contributed q g # es) = (if q = p then g # contribsTo p es else contribsTo p es)"
| "contribsTo p (Handed q v # es) = contribsTo p es"

fun sumContributions :: "matrix list \<Rightarrow> matrix" where
  "sumContributions [] = []"
| "sumContributions (g # gs) = fold (\<lambda>h acc. add acc h) gs g"

text \<open>
  Every hand-over in the log hands over the sum of the contributions that precede
  it; there is at least one, and they are as many as the layer has
  gradient-producing successors.
\<close>

definition handedOK :: "layer list \<Rightarrow> gradEvent list \<Rightarrow> bool" where
  "handedOK layers es =
     (\<forall>k < length es. \<forall>p v. es ! k = Handed p v \<longrightarrow>
        v = sumContributions (contribsTo p (take k es)) \<and>
        contribsTo p (take k es) \<noteq> [] \<and>
        length (contribsTo p (take k es)) = numGradProducersNext (layers ! p))"

text \<open>
  The invariant of the backward pass. The layers that count their backward inputs
  are those with \<^verbatim>\<open>Layer::bprop()\<close>. Between two calls, the counter of such a
  layer is the number of contributions it has received, and as long as the counter
  is below the number of gradient-producing successors the buffer is their sum
  (\<open>settled\<close>). Between the write of a contribution and the call of \<^verbatim>\<open>bprop()\<close>
  that counts it, the number of contributions is one ahead (\<open>pending\<close>).
\<close>

definition counts :: "layer list \<Rightarrow> nat \<Rightarrow> bool" where
  "counts layers p = (kind (layers ! p) \<noteq> DataLayer \<and> kind (layers ! p) \<noteq> LogregCost)"

definition settled :: "layer list \<Rightarrow> graphState \<Rightarrow> nat \<Rightarrow> bool" where
  "settled layers s p =
     (getRcvdBInputs s p = length (contribsTo p (gradLog s)) \<and>
      (0 < getRcvdBInputs s p \<and> getRcvdBInputs s p < numGradProducersNext (layers ! p) \<longrightarrow>
         getActGrads s p = sumContributions (contribsTo p (gradLog s))))"

definition pending :: "layer list \<Rightarrow> graphState \<Rightarrow> nat \<Rightarrow> bool" where
  "pending layers s p =
     (length (contribsTo p (gradLog s)) = getRcvdBInputs s p + 1 \<and>
      (getRcvdBInputs s p < numGradProducersNext (layers ! p) \<longrightarrow>
         getActGrads s p = sumContributions (contribsTo p (gradLog s))))"

definition bpropInv :: "layer list \<Rightarrow> graphState \<Rightarrow> bool" where
  "bpropInv layers s =
     (length (layerStates s) = length layers \<and> handedOK layers (gradLog s) \<and>
      (\<forall>p < length layers. counts layers p \<longrightarrow> settled layers s p))"

definition bpropInvExcept :: "layer list \<Rightarrow> graphState \<Rightarrow> nat \<Rightarrow> bool" where
  "bpropInvExcept layers s i =
     (length (layerStates s) = length layers \<and> handedOK layers (gradLog s) \<and>
      (\<forall>p < length layers. counts layers p \<longrightarrow>
         (if p = i then pending layers s p else settled layers s p)))"

text \<open>
  What construction guarantees of the layers, and what the theorem on the backward
  pass asks of the cost layers: every layer other than a data layer propagates
  gradient, a pooling layer pools by maximum or by average, and no cost layer has
  the coefficient zero.
\<close>

definition bpropStatic :: "layer list \<Rightarrow> bool" where
  "bpropStatic layers =
     (\<forall>i < length layers.
        (kind (layers ! i) \<noteq> DataLayer \<longrightarrow> propagateGrad (layers ! i)) \<and>
        (kind (layers ! i) = PoolLayer \<longrightarrow> pool (layers ! i) = ''max'' \<or> pool (layers ! i) = ''avg'') \<and>
        (kind (layers ! i) = LogregCost \<longrightarrow> coeff (layers ! i) \<noteq> 0))"

text \<open>No counter goes down.\<close>

definition countersGrow :: "layer list \<Rightarrow> graphState \<Rightarrow> graphState \<Rightarrow> bool" where
  "countersGrow layers s s' = (\<forall>q < length layers. getRcvdBInputs s q \<le> getRcvdBInputs s' q)"

section \<open>Example configurations\<close>

definition layerDef :: "string \<Rightarrow> nat list \<Rightarrow> real \<Rightarrow> layerParams" where
  "layerDef t ins c =
     \<lparr>ptype = t, inputs = ins, coeffP = c, poolP = [], biasesP = [[0]], dataIdxP = 0\<rparr>"

definition dataDef :: "int \<Rightarrow> layerParams" where
  "dataDef idx = (layerDef ''data'' [] 0)\<lparr>dataIdxP := idx\<rparr>"

text \<open>
  A graph with a diamond: the data layer 0 feeds the fully-connected layers 2 and 3,
  both feed layer 4, and layer 4 feeds a softmax layer and a further fully-connected
  layer. Layer 1 holds the labels for the cost layer 7.
\<close>

definition diamondParams :: "layerParams list" where
  "diamondParams =
     [dataDef 0, dataDef 1,
      layerDef ''fc'' [0] 0, layerDef ''fc'' [0] 0, layerDef ''fc'' [2, 3] 0,
      layerDef ''softmax'' [4] 0, layerDef ''fc'' [4] 0,
      layerDef ''cost.logreg'' [1, 5] 1]"

definition mkLayer ::
  "layer_kind \<Rightarrow> nat list \<Rightarrow> nat list \<Rightarrow> nat \<Rightarrow> bool \<Rightarrow> bool \<Rightarrow> bool \<Rightarrow> real \<Rightarrow> layer" where
  "mkLayer k ps ns g pg gp tr c =
     \<lparr>kind = k, prev = ps, nxt = ns, numGradProducersNext = g,
      propagateGrad = pg, gradProducer = gp, trans = tr, coeff = c, pool = [], dataIdx = 0\<rparr>"

definition mkData :: "nat list \<Rightarrow> nat \<Rightarrow> int \<Rightarrow> layer" where
  "mkData ns g idx = (mkLayer DataLayer [] ns g False False False 0)\<lparr>dataIdx := idx\<rparr>"

definition diamondLayers :: "layer list" where
  "diamondLayers =
     [mkData [2, 3] 2 0,
      mkData [7] 1 1,
      mkLayer FCLayer [0] [4] 1 True True True 0,
      mkLayer FCLayer [0] [4] 1 True True True 0,
      mkLayer FCLayer [2, 3] [5, 6] 2 True True True 0,
      mkLayer SoftmaxLayer [4] [7] 1 True True True 0,
      mkLayer FCLayer [4] [] 0 True True True 0,
      mkLayer LogregCost [1, 5] [] 0 True True False 1]"

text \<open>
  Kernels that pass their first argument through, 1 by 1 buffers, and two graphs
  with cost layers: in the first the softmax layer 3 feeds a cost with coefficient 0
  (layer 4) and a cost with coefficient 1 (layer 5).
\<close>

definition exampleKernels :: kernels where
  "exampleKernels =
     \<lparr>activate = (\<lambda>a. a), convFilterActs = (\<lambda>images w. images),
      convLocalPoolMax = (\<lambda>images. images), convLocalPoolAvg = (\<lambda>images. images),
      kLogregCost = (\<lambda>probs labels maxProbs n. (probs, probs)),
      computeInputGrads = (\<lambda>a v. v), convImgActs = (\<lambda>v w. v), convWeightActs = (\<lambda>a v. v),
      convLocalMaxUndo = (\<lambda>a v b. v), convLocalAvgUndo = (\<lambda>v. v),
      kSoftmaxGrads = (\<lambda>v a. v), kLogregCostGrads = (\<lambda>probs labels n c. scale c probs)\<rparr>"

definition unitWeights :: weights where
  "unitWeights = \<lparr>getW = [[1]], getInc = [[0]], getGrads = [[0]], getEps = 1, getMom = 0\<rparr>"

definition mkState :: "matrix \<Rightarrow> matrix \<Rightarrow> lstate" where
  "mkState a g = \<lparr>rcvdFInputs = 0, rcvdBInputs = 0, acts = a, actGrads = g,
     weightsOf = [unitWeights],
     biasesOf = \<lparr>getW = [[0]], getInc = [[0]], getGrads = [[0]], getEps = 1, getMom = 0\<rparr>,
     err = []\<rparr>"

definition zeroCoeffParams :: "layerParams list" where
  "zeroCoeffParams =
     [dataDef 0, dataDef 1, layerDef ''fc'' [1] 0,
      layerDef ''softmax'' [2] 0, layerDef ''cost.logreg'' [0, 3] 0,
      layerDef ''cost.logreg'' [0, 3] 1]"

definition zeroCoeffLayers :: "layer list" where
  "zeroCoeffLayers =
     [mkData [4, 5] 1 0,
      mkData [2] 1 1,
      mkLayer FCLayer [1] [3] 1 True True True 0,
      mkLayer SoftmaxLayer [2] [4, 5] 1 True True True 0,
      mkLayer LogregCost [0, 3] [] 0 True False False 0,
      mkLayer LogregCost [0, 3] [] 0 True True False 1]"

definition zeroCoeffState :: graphState where
  "zeroCoeffState =
     \<lparr>layerStates = [mkState [[1]] [], mkState [[1]] [], mkState [[1]] [[5]],
                      mkState [[1]] [[7]], mkState [] [], mkState [] []],
      fpropLog = [], gradLog = [], isCheckingGrads = False, numCases = 1, saveBwdActs = False\<rparr>"

text \<open>
  Layer 2 feeds the two softmax layers 3 and 4, each followed by a cost layer.
\<close>

definition twoSuccParams :: "layerParams list" where
  "twoSuccParams =
     [dataDef 0, dataDef 1, layerDef ''fc'' [0] 0,
      layerDef ''softmax'' [2] 0, layerDef ''softmax'' [2] 0,
      layerDef ''cost.logreg'' [1, 3] 1, layerDef ''cost.logreg'' [1, 4] 1]"

definition twoSuccLayers :: "layer list" where
  "twoSuccLayers =
     [mkData [2] 1 0,
      mkData [5, 6] 2 1,
      mkLayer FCLayer [0] [3, 4] 2 True True True 0,
      mkLayer SoftmaxLayer [2] [5] 1 True True True 0,
      mkLayer SoftmaxLayer [2] [6] 1 True True True 0,
      mkLayer LogregCost [1, 3] [] 0 True True False 1,
      mkLayer LogregCost [1, 4] [] 0 True True False 1]"

definition twoSuccState :: graphState where
  "twoSuccState =
     \<lparr>layerStates = [mkState [[1]] [], mkState [[1]] [], mkState [[1]] [[9]],
                      mkState [[1]] [], mkState [[2]] [], mkState [] [], mkState [] []],
      fpropLog = [], gradLog = [], isCheckingGrads = False, numCases = 1, saveBwdActs = False\<rparr>"

text \<open>
  The log of a backward pass over this graph from that state: each cost layer
  contributes to its softmax layer, which is handed the contribution and
  contributes to layer 2; layer 2 is handed its buffer when both have arrived.
\<close>

definition twoSuccLog :: "gradEvent list" where
  "twoSuccLog =
     [Contributed 3 [[1]], Handed 3 [[1]], Contributed 2 [[1]],
      Contributed 4 [[2]], Handed 4 [[2]], Contributed 2 [[2]],
      Handed 2 [[3]]]"

text \<open>
  A state for the diamond graph, before any pass: layer 4 has a weight matrix for
  each of its two inputs. The data set has a matrix for each of the two data layers.
\<close>

definition diamondState :: graphState where
  "diamondState =
     \<lparr>layerStates = [mkState [[1]] [], mkState [[1]] [], mkState [] [], mkState [] [],
                      (mkState [] [])\<lparr>weightsOf := [unitWeights, unitWeights]\<rparr>,
                      mkState [] [], mkState [] [], mkState [] []],
      fpropLog = [], gradLog = [], isCheckingGrads = False, numCases = 1, saveBwdActs = False\<rparr>"









section \<open>Gradient checking\<close>

text \<open>
  \<^verbatim>\<open>LayerGraph::checkGradientsW\<close> works on one \<^verbatim>\<open>Weights\<close> object and on the
  fields \<^verbatim>\<open>_baseErr\<close>, \<^verbatim>\<open>_numTests\<close> and \<^verbatim>\<open>_numFailures\<close> of the graph.

  Modelled from the spec: rerunning the full forward pass and reading the cost
  (\<^verbatim>\<open>fprop(); getCostFunctionValue()\<close>) depends on the device copy of the weight
  matrix under test and on nothing else that changes during the check; the kernels
  that compute it are external, so the cost as a function of that matrix is the
  parameter \<open>fpropCost\<close>.
\<close>

record gradCheck =
  baseErr :: real
  numTests :: nat
  numFailures :: nat

definition GC_REL_ERR_THRESH :: real where
  "GC_REL_ERR_THRESH = 0.02"

definition setCell :: "matrix \<Rightarrow> nat \<Rightarrow> nat \<Rightarrow> real \<Rightarrow> matrix" where
  "setCell m i j x = m[i := (m ! i)[j := x]]"

definition cell :: "matrix \<Rightarrow> nat \<Rightarrow> nat \<Rightarrow> real" where
  "cell m i j = m ! i ! j"

text \<open>
  The body of the two nested loops. The state is the host copy \<open>weightsCPU\<close>, the
  device matrix \<open>W\<close> and the host matrix \<open>numGrads\<close>.
\<close>

definition checkStep ::
  "(matrix \<Rightarrow> real) \<Rightarrow> real \<Rightarrow> real \<Rightarrow> int \<Rightarrow> nat \<Rightarrow> nat
     \<Rightarrow> matrix \<times> matrix \<times> matrix \<Rightarrow> matrix \<times> matrix \<times> matrix" where
  "checkStep fpropCost eps base nCases i j st =
     (case st of (weightsCPU, W, numGrads) \<Rightarrow>
        let v = cell weightsCPU i j;
            weightsCPU1 = setCell weightsCPU i j (cell weightsCPU i j + eps);
            W1 = weightsCPU1;
            weightsCPU2 = setCell weightsCPU1 i j v;
            err = fpropCost W1;
            numGrads1 = setCell numGrads i j ((err - base) / (real_of_int nCases * eps));
            W2 = weightsCPU2
        in (weightsCPU2, W2, numGrads1))"

definition checkLoops ::
  "(matrix \<Rightarrow> real) \<Rightarrow> real \<Rightarrow> real \<Rightarrow> int \<Rightarrow> nat \<Rightarrow> nat
     \<Rightarrow> matrix \<times> matrix \<times> matrix \<Rightarrow> matrix \<times> matrix \<times> matrix" where
  "checkLoops fpropCost eps base nCases rows cols st =
     fold (\<lambda>i. fold (checkStep fpropCost eps base nCases i) [0..<cols]) [0..<rows] st"

text \<open>
  The comparison \<^verbatim>\<open>relErr >= GC_REL_ERR_THRESH\<close> for
  \<^verbatim>\<open>relErr = diff.norm() / analNorm\<close>. The quotient by a zero norm is an infinity
  (which passes the threshold) or, for zero by zero, a NaN (which passes no
  comparison); the branch writes this out.
\<close>

definition relErrFails :: "real \<Rightarrow> real \<Rightarrow> bool" where
  "relErrFails diffNorm analNorm =
     (if analNorm = 0 then diffNorm > 0 else diffNorm / analNorm \<ge> GC_REL_ERR_THRESH)"

record checkResult =
  fail :: bool
  weightsAfter :: weights
  graphAfter :: gradCheck
  numGradsOut :: matrix
  gradsCPUOut :: matrix

definition checkGradientsW ::
  "(matrix \<Rightarrow> real) \<Rightarrow> int \<Rightarrow> real \<Rightarrow> weights \<Rightarrow> gradCheck \<Rightarrow> checkResult" where
  "checkGradientsW fpropCost nCases eps w g =
     (let rows = getNumRows (getW w);
          cols = getNumCols (getW w);
          numGrads0 = replicate rows (replicate cols 0);
          weightsCPU0 = getW w
      in case checkLoops fpropCost eps (baseErr g) nCases rows cols
                (weightsCPU0, getW w, numGrads0) of
           (weightsCPU, W', numGrads) \<Rightarrow>
             let grads' = scale (- 1 / real_of_int nCases) (getGrads w);
                 gradsCPU = grads';
                 analNorm = norm gradsCPU;
                 diff = subtract numGrads gradsCPU;
                 failed = relErrFails (norm diff) analNorm
             in \<lparr>fail = failed,
                 weightsAfter = w\<lparr>getW := W', getGrads := grads'\<rparr>,
                 graphAfter = g\<lparr>numTests := numTests g + 1,
                                 numFailures := numFailures g + (if failed then 1 else 0)\<rparr>,
                 numGradsOut = numGrads,
                 gradsCPUOut = gradsCPU\<rparr>)"

text \<open>
  The forward-difference quotient for the weight at \<open>(i, j)\<close>: the cost after adding
  \<open>eps\<close> to that weight, minus the baseline cost, divided by the case count times
  \<open>eps\<close>.
\<close>

definition numericEntry ::
  "(matrix \<Rightarrow> real) \<Rightarrow> real \<Rightarrow> real \<Rightarrow> int \<Rightarrow> matrix \<Rightarrow> nat \<Rightarrow> nat \<Rightarrow> real" where
  "numericEntry fpropCost eps base nCases W0 i j =
     (fpropCost (setCell W0 i j (cell W0 i j + eps)) - base) / (real_of_int nCases * eps)"

definition exampleCost :: "matrix \<Rightarrow> real" where
  "exampleCost m = 2 * cell m 0 0 + 1"

definition exampleWeights :: weights where
  "exampleWeights = \<lparr>getW = [[1]], getInc = [[0]], getGrads = [[- 4]], getEps = 1, getMom = 0\<rparr>"

definition exampleCheck :: gradCheck where
  "exampleCheck = \<lparr>baseErr = 3, numTests = 0, numFailures = 0\<rparr>"

section \<open>Properties\<close>

text \<open>
  The recursive equations of the two passes are unfolded where a proof says so, not
  by the simplifier on its own.
\<close>

declare fprop.simps [simp del] Layer_fpropV.simps [simp del] fpropNext.simps [simp del]
declare bprop.simps [simp del] Layer_bpropV.simps [simp del] FCLayer_loop.simps [simp del]

subsection \<open>Helper facts about the matrix primitive\<close>

lemma map2_add_zero_left:
  "length xs = length ys \<Longrightarrow> map2 (+) (map (\<lambda>x. x * (0::real)) xs) (map (\<lambda>x. x * 1) ys) = ys"
  by (induction xs ys rule: list_induct2) auto

lemma add_scale0_scale1: "sameShape a b \<Longrightarrow> add (scale 0 a) (scale 1 b) = b"
  unfolding sameShape_def
proof (induction a b rule: list_all2_induct)
  case Nil
  then show ?case by (simp add: add_def scale_def)
next
  case (Cons x xs y ys)
  then show ?case using map2_add_zero_left [of x y]
    by (simp add: add_def scale_def)
qed

subsection \<open>C7: the weight increment in checking mode\<close>

text \<open>
  C7. In \<^verbatim>\<open>FCLayer::_bprop\<close>, when the graph is checking gradients the increment is
  updated with factor 0 on the old increment and factor 1 on the product, so the new
  increment is exactly the transposed predecessor activations times the local
  gradient (the increment buffer having the shape of that product); otherwise the old
  increment is scaled by the momentum and the product by the learning rate divided by
  the case count.
\<close>

theorem FCLayer_updateInc_checking:
  "FCLayer_scaleThis True w = 0 \<and> FCLayer_scaleAB True nc w = 1 \<and>
   (sameShape (getInc w) (rightMult (getTranspose prevActs) v) \<longrightarrow>
      getInc (FCLayer_updateInc True nc prevActs v w)
        = rightMult (getTranspose prevActs) v) \<and>
   FCLayer_scaleThis False w = getMom w \<and>
   FCLayer_scaleAB False nc w = getEps w / real_of_int nc \<and>
   getInc (FCLayer_updateInc False nc prevActs v w)
     = add (scale (getMom w) (getInc w))
           (scale (getEps w / real_of_int nc) (rightMult (getTranspose prevActs) v))"
  using add_scale0_scale1 [of "getInc w" "rightMult (getTranspose prevActs) v"]
  by (simp add: FCLayer_scaleThis_def FCLayer_scaleAB_def FCLayer_updateInc_def
      addProduct_def)

theorem FCLayer_updateInc_checking_witness:
  "sameShape [[7, 8]] (rightMult (getTranspose [[1], [2]]) [[3, 4], [1, 1]]) \<and>
   getInc (FCLayer_updateInc True 2 [[1], [2]] [[3, 4], [1, 1]]
             \<lparr>getW = [[0], [0]], getInc = [[7, 8]], getGrads = [], getEps = 1, getMom = 9\<rparr>)
     = [[5, 6]]"
proof -
  have s: "sameShape [[7, 8]] (rightMult (getTranspose [[1], [2]]) [[3, 4], [1, 1]])"
    by (simp add: sameShape_def rightMult_def getTranspose_def transpose.simps)
  have p: "rightMult (getTranspose [[1], [2]]) [[3, 4], [1, 1]] = [[5, 6]]"
    by (simp add: rightMult_def getTranspose_def transpose.simps)
  show ?thesis
    using s p FCLayer_updateInc_checking
      [of "\<lparr>getW = [[0], [0]], getInc = [[7, 8]], getGrads = [], getEps = 1, getMom = 9\<rparr>"
          2 "[[1], [2]]" "[[3, 4], [1, 1]]"]
    by simp
qed

subsection \<open>C6: which path computes the convolution weight gradient\<close>

text \<open>
  C6. In \<^verbatim>\<open>ConvLayer::_bprop\<close> the chunked partial-sum path is taken if and only if
  \<open>0 < partialSum < modules\<close>, where \<open>modules\<close> is \<open>modulesX\<close> squared; when
  \<open>partialSum\<close> equals the number of modules, is zero or exceeds the number of
  modules, the single call computes the weight gradient.
\<close>

theorem ConvLayer_partialSum_path:
  "c = ConvLayer_init pad str fs mx ch im nf ps \<Longrightarrow> fitsInt (mx * mx) \<Longrightarrow>
   (chunkedPath (ConvLayer_weightGradCalls c) \<longleftrightarrow> 0 < ps \<and> ps < mx * mx) \<and>
   (ps = mx * mx \<or> ps = 0 \<or> ps > mx * mx \<longrightarrow>
      ConvLayer_weightGradCalls c = [ConvWeightActs_full])"
  by (auto simp: ConvLayer_init_def ConvLayer_weightGradCalls_def chunkedPath_def)

theorem ConvLayer_partialSum_path_witness:
  "fitsInt (6 * 6) \<and>
   chunkedPath (ConvLayer_weightGradCalls (ConvLayer_init 0 1 5 6 3 10 16 4)) \<and>
   ConvLayer_weightGradCalls (ConvLayer_init 0 1 5 6 3 10 16 36) = [ConvWeightActs_full]"
proof -
  have f: "fitsInt (6 * 6)" by (simp add: fitsInt_def)
  show ?thesis
    using f ConvLayer_partialSum_path [OF refl f, of 0 1 5 3 10 16 4]
      ConvLayer_partialSum_path [OF refl f, of 0 1 5 3 10 16 36]
    by simp
qed

subsection \<open>C9: the generic entry points that throw\<close>

text \<open>
  C9. The zero-argument \<^verbatim>\<open>fprop()\<close> of a data layer throws on every call, and so
  does the single-gradient \<^verbatim>\<open>_bprop\<close> of a cost layer: each returns a descriptive
  error and no new state, whatever the state and the argument; so do the virtual
  \<^verbatim>\<open>fprop()\<close> called on a data layer of a graph and \<^verbatim>\<open>bprop(NVMatrix&)\<close> called
  on a cost layer of a graph.
\<close>

theorem generic_entry_points_throw:
  "(\<forall>s. DataLayer_fprop s = Inl (Thrown ''No dava given!'')) \<and>
   (\<forall>v s. Cost__bprop v s = Inl (Thrown ''Cost does not support _bprop(NVMatrix&)'')) \<and>
   (\<forall>K layers i s. kind (layers ! i) = DataLayer \<longrightarrow>
      fprop K layers i s = Inl (Thrown ''No dava given!'')) \<and>
   (\<forall>K layers i s. kind (layers ! i) = LogregCost \<longrightarrow>
      Layer_bpropV K layers i s = Inl (Thrown ''Cost does not support _bprop(NVMatrix&)''))"
  by (simp add: DataLayer_fprop_def Cost__bprop_def fprop.simps Layer_bpropV.simps Let_def)

theorem generic_entry_points_throw_witness:
  "kind (diamondLayers ! 0) = DataLayer \<and>
   fprop exampleKernels diamondLayers 0 diamondState = Inl (Thrown ''No dava given!'') \<and>
   kind (diamondLayers ! 7) = LogregCost \<and>
   Layer_bpropV exampleKernels diamondLayers 7 diamondState
     = Inl (Thrown ''Cost does not support _bprop(NVMatrix&)'')"
proof -
  have d: "kind (diamondLayers ! 0) = DataLayer" and c: "kind (diamondLayers ! 7) = LogregCost"
    by (simp_all add: diamondLayers_def mkLayer_def mkData_def)
  from generic_entry_points_throw d c show ?thesis by blast
qed

subsection \<open>C5: the forward links are the inverse of the backward links\<close>

lemma addNext_length [simp]: "length (addNext b a ls) = length ls"
  by (simp add: addNext_def)

lemma addNext_prev [simp]: "prev (addNext b a ls ! c) = prev (ls ! c)"
proof (cases "b < length ls")
  case True
  then show ?thesis by (simp add: addNext_def nth_list_update)
next
  case False
  then show ?thesis by (simp add: addNext_def not_less list_update_beyond)
qed

lemma addNext_gradProducer [simp]: "gradProducer (addNext b a ls ! c) = gradProducer (ls ! c)"
proof (cases "b < length ls")
  case True
  then show ?thesis by (simp add: addNext_def nth_list_update)
next
  case False
  then show ?thesis by (simp add: addNext_def not_less list_update_beyond)
qed

lemma addNext_kind [simp]: "kind (addNext b a ls ! c) = kind (ls ! c)"
proof (cases "b < length ls")
  case True
  then show ?thesis by (simp add: addNext_def nth_list_update)
next
  case False
  then show ?thesis by (simp add: addNext_def not_less list_update_beyond)
qed

lemma addNext_nxt:
  "c < length ls \<Longrightarrow>
   nxt (addNext b a ls ! c) = (if c = b then nxt (ls ! c) @ [a] else nxt (ls ! c))"
  by (simp add: addNext_def)

lemma fold_addNext_length [simp]: "length (fold (\<lambda>p. addNext p i) bs ls) = length ls"
  by (induction bs arbitrary: ls) simp_all

lemma fold_addNext_prev [simp]: "prev (fold (\<lambda>p. addNext p i) bs ls ! c) = prev (ls ! c)"
  by (induction bs arbitrary: ls) simp_all

lemma fold_addNext_kind [simp]: "kind (fold (\<lambda>p. addNext p i) bs ls ! c) = kind (ls ! c)"
  by (induction bs arbitrary: ls) simp_all

lemma fold_addNext_count:
  "c < length ls \<Longrightarrow>
   count_list (nxt (fold (\<lambda>p. addNext p i) bs ls ! c)) a
     = count_list (nxt (ls ! c)) a + (if a = i then count_list bs c else 0)"
  by (induction bs arbitrary: ls) (auto simp: addNext_nxt)

lemma connectLayer_length [simp]: "length (connectLayer i ls) = length ls"
  by (simp add: connectLayer_def)

lemma connectLayer_prev [simp]: "prev (connectLayer i ls ! c) = prev (ls ! c)"
  by (simp add: connectLayer_def)

lemma connectLayer_kind [simp]: "kind (connectLayer i ls ! c) = kind (ls ! c)"
  by (simp add: connectLayer_def)

lemma connectLayer_count:
  "c < length ls \<Longrightarrow>
   count_list (nxt (connectLayer i ls ! c)) a
     = count_list (nxt (ls ! c)) a + (if a = i then count_list (prev (ls ! i)) c else 0)"
  by (simp add: connectLayer_def fold_addNext_count)

lemma fold_connectLayer_length [simp]: "length (fold connectLayer is ls) = length ls"
  by (induction "is" arbitrary: ls) simp_all

lemma fold_connectLayer_prev [simp]: "prev (fold connectLayer is ls ! c) = prev (ls ! c)"
  by (induction "is" arbitrary: ls) simp_all

lemma fold_connectLayer_kind [simp]: "kind (fold connectLayer is ls ! c) = kind (ls ! c)"
  by (induction "is" arbitrary: ls) simp_all

lemma fold_connectLayer_count:
  "c < length ls \<Longrightarrow> distinct is \<Longrightarrow>
   count_list (nxt (fold connectLayer is ls ! c)) a
     = count_list (nxt (ls ! c)) a + (if a \<in> set is then count_list (prev (ls ! a)) c else 0)"
  by (induction "is" arbitrary: ls) (auto simp: connectLayer_count)

lemma connectForward_length [simp]: "length (connectForward ls) = length ls"
  by (simp add: connectForward_def)

lemma connectForward_prev [simp]: "prev (connectForward ls ! c) = prev (ls ! c)"
  by (simp add: connectForward_def)

lemma connectForward_kind [simp]: "kind (connectForward ls ! c) = kind (ls ! c)"
  by (simp add: connectForward_def)

lemma connectForward_count:
  "c < length ls \<Longrightarrow>
   count_list (nxt (connectForward ls ! c)) a
     = count_list (nxt (ls ! c)) a + (if a < length ls then count_list (prev (ls ! a)) c else 0)"
  by (simp add: connectForward_def fold_connectLayer_count)

lemma Layer_init_Inr:
  "Layer_init ls p k pg gp tr = Inr l \<Longrightarrow>
   prev l = inputs p \<and> nxt l = [] \<and> (\<forall>x \<in> set (inputs p). x < length ls) \<and> kind l = k"
  by (auto simp: Layer_init_def list_all_iff split: if_splits)

lemma newLayer_Inr:
  "newLayer ls p = Inr l \<Longrightarrow>
   prev l = inputs p \<and> nxt l = [] \<and> (\<forall>x \<in> set (inputs p). x < length ls)"
  unfolding newLayer_def Cost_init_def
  by (auto split: if_splits sum.splits dest!: Layer_init_Inr)

lemma buildLayers_builtFrom:
  "buildLayers ls ps = Inr T \<Longrightarrow> builtFrom qs ls \<Longrightarrow> builtFrom (qs @ ps) T"
proof (induction ps arbitrary: ls qs)
  case Nil
  then show ?case by simp
next
  case (Cons p ps)
  from Cons.prems(1) obtain l where l: "newLayer ls p = Inr l"
    and rest: "buildLayers (ls @ [l]) ps = Inr T"
    by (auto split: sum.splits)
  have "builtFrom (qs @ [p]) (ls @ [l])"
    using Cons.prems(2) newLayer_Inr [OF l]
    by (auto simp: builtFrom_def nth_append less_Suc_eq)
  from Cons.IH [OF rest this] show ?case by simp
qed

lemma LayerGraph_init_builtFrom:
  assumes "LayerGraph_init ps = Inr T"
  obtains ls where "builtFrom ps ls" and "T = connectForward ls"
proof -
  from assms obtain ls where b: "buildLayers [] ps = Inr ls" and T: "T = connectForward ls"
    by (auto simp: LayerGraph_init_def split: sum.splits)
  have "builtFrom [] []" by (simp add: builtFrom_def)
  from buildLayers_builtFrom [OF b this] have "builtFrom ps ls" by simp
  with T that show thesis by blast
qed

lemma connectForward_count_built:
  assumes "builtFrom ps ls" and "c < length ls"
  shows "count_list (nxt (connectForward ls ! c)) a
           = (if a < length ls then count_list (prev (ls ! a)) c else 0)"
  using connectForward_count [OF assms(2), of a] assms by (simp add: builtFrom_def)

lemma diamond_built: "LayerGraph_init diamondParams = Inr diamondLayers"
  by (simp add: diamondParams_def diamondLayers_def layerDef_def dataDef_def mkLayer_def mkData_def
      LayerGraph_init_def newLayer_def Layer_init_def Cost_init_def getNumRows_def
      connectForward_def connectLayer_def addNext_def upt_rec)

text \<open>
  C5. After \<^verbatim>\<open>LayerGraph\<close> construction from any list of layer declarations, the
  graph has one layer per declaration with the declared inputs as predecessors, and
  for every pair of layers \<open>a\<close> and \<open>b\<close> the successor list of \<open>b\<close> contains \<open>a\<close>
  exactly as many times as the predecessor list of \<open>a\<close> contains \<open>b\<close>; a successor
  list names layers of the graph only.
\<close>

theorem successors_inverse_of_predecessors:
  assumes "LayerGraph_init layerParams = Inr layers"
  shows "length layers = length layerParams \<and>
         (\<forall>a < length layers. prev (layers ! a) = inputs (layerParams ! a)) \<and>
         (\<forall>a < length layers. \<forall>b < length layers.
            count_list (nxt (layers ! b)) a = count_list (prev (layers ! a)) b) \<and>
         (\<forall>b < length layers. \<forall>a \<in> set (nxt (layers ! b)). a < length layers)"
proof -
  from assms obtain ls where b: "builtFrom layerParams ls" and T: "layers = connectForward ls"
    by (rule LayerGraph_init_builtFrom)
  have cnt: "count_list (nxt (layers ! c)) a
      = (if a < length ls then count_list (prev (ls ! a)) c else 0)" if "c < length ls" for c a
    using connectForward_count_built [OF b that] by (simp add: T)
  have "a < length layers" if "c < length layers" "a \<in> set (nxt (layers ! c))" for a c
  proof (rule ccontr)
    assume "\<not> a < length layers"
    then have "count_list (nxt (layers ! c)) a = 0" using cnt [of c a] that(1) by (simp add: T)
    then show False using that(2) by (simp add: count_list_0_iff)
  qed
  then show ?thesis using b cnt by (simp add: T builtFrom_def)
qed

theorem successors_inverse_of_predecessors_witness:
  "LayerGraph_init diamondParams = Inr diamondLayers \<and>
   length diamondLayers = length diamondParams \<and>
   count_list (nxt (diamondLayers ! 4)) 5 = count_list (prev (diamondLayers ! 5)) 4 \<and>
   count_list (prev (diamondLayers ! 5)) 4 = 1 \<and>
   count_list (nxt (diamondLayers ! 0)) 5 = count_list (prev (diamondLayers ! 5)) 0"
proof -
  have l: "length diamondLayers = 8" by (simp add: diamondLayers_def)
  have c: "count_list (prev (diamondLayers ! 5)) 4 = 1"
    by (simp add: diamondLayers_def mkLayer_def)
  show ?thesis
    using diamond_built successors_inverse_of_predecessors [OF diamond_built] l c by simp
qed

subsection \<open>C8: the softmax forward computation\<close>

lemma rowMax_Max: "row \<noteq> [] \<Longrightarrow> rowMax row = Max (set row)"
proof (cases row)
  case Nil
  then show "row \<noteq> [] \<Longrightarrow> ?thesis" by simp
next
  case (Cons x xs)
  have "fold max xs x = Max (set (x # xs))"
    by (rule Max.set_eq_fold [symmetric])
  with Cons show ?thesis by simp
qed

lemma softmax_row:
  "eltwiseDivideByVector (apply_EXP (addVector x (max1 x) (- 1)))
      (sum1 (apply_EXP (addVector x (max1 x) (- 1))))
   = map (\<lambda>row. map (\<lambda>v. exp (v - rowMax row) / (\<Sum>u\<leftarrow>row. exp (u - rowMax row))) row) x"
  by (induction x)
     (simp_all add: max1_def addVector_def apply_EXP_def sum1_def eltwiseDivideByVector_def
        comp_def)

text \<open>
  C8. For every input matrix, \<^verbatim>\<open>SoftmaxLayer::_fprop\<close> leaves in the activation
  buffer, at every entry of every case (row), the exponential of the entry minus the
  maximum of its case, divided by the sum of these exponentials over the case.
\<close>

theorem SoftmaxLayer_fprop_stable:
  "SoftmaxLayer__fprop (x # rest)
     = Inr (map (\<lambda>row. map (\<lambda>v. exp (v - Max (set row))
                              / (\<Sum>u\<leftarrow>row. exp (u - Max (set row)))) row) x)"
proof -
  have "SoftmaxLayer__fprop (x # rest)
     = Inr (map (\<lambda>row. map (\<lambda>v. exp (v - rowMax row) / (\<Sum>u\<leftarrow>row. exp (u - rowMax row))) row) x)"
    by (simp add: SoftmaxLayer__fprop_def Let_def softmax_row)
  also have "map (\<lambda>row. map (\<lambda>v. exp (v - rowMax row) / (\<Sum>u\<leftarrow>row. exp (u - rowMax row))) row) x
     = map (\<lambda>row. map (\<lambda>v. exp (v - Max (set row)) / (\<Sum>u\<leftarrow>row. exp (u - Max (set row)))) row) x"
  proof (rule map_cong [OF refl])
    fix row assume "row \<in> set x"
    show "map (\<lambda>v. exp (v - rowMax row) / (\<Sum>u\<leftarrow>row. exp (u - rowMax row))) row
        = map (\<lambda>v. exp (v - Max (set row)) / (\<Sum>u\<leftarrow>row. exp (u - Max (set row)))) row"
      by (cases "row = []") (simp_all add: rowMax_Max)
  qed
  finally show ?thesis .
qed

subsection \<open>C3 and C10: gradient checking\<close>

lemma setCell_restore: "setCell (setCell m i j x) i j (cell m i j) = m"
  by (cases "i < length m") (simp_all add: setCell_def cell_def list_update_beyond not_less)

lemma checkStep_eq:
  "checkStep fpropCost eps base nCases i j (W0, W0, ng)
     = (W0, W0, setCell ng i j (numericEntry fpropCost eps base nCases W0 i j))"
  by (simp add: checkStep_def Let_def setCell_restore numericEntry_def)

lemma inner_fold_eq:
  "fold (checkStep fpropCost eps base nCases i) js (W0, W0, ng)
     = (W0, W0, fold (\<lambda>j m. setCell m i j (numericEntry fpropCost eps base nCases W0 i j)) js ng)"
  by (induction js arbitrary: ng) (simp_all add: checkStep_eq)

lemma outer_fold_eq:
  "fold (\<lambda>i. fold (checkStep fpropCost eps base nCases i) js) is (W0, W0, ng)
     = (W0, W0, fold (\<lambda>i. fold (\<lambda>j m. setCell m i j
                        (numericEntry fpropCost eps base nCases W0 i j)) js) is ng)"
  by (induction "is" arbitrary: ng) (simp_all add: inner_fold_eq)

lemma setCell_length [simp]: "length (setCell m i j x) = length m"
  by (simp add: setCell_def)

lemma setCell_row_length [simp]: "length (setCell m i j x ! k) = length (m ! k)"
  by (cases "i < length m"; cases "k = i")
     (simp_all add: setCell_def list_update_beyond not_less)

lemma cell_setCell:
  "i < length m \<Longrightarrow> j < length (m ! i) \<Longrightarrow>
   cell (setCell m i j x) i' j' = (if i' = i \<and> j' = j then x else cell m i' j')"
  by (auto simp: setCell_def cell_def nth_list_update)

lemma fold_setCell_length [simp]:
  "length (fold (\<lambda>j m. setCell m i j (F j)) js m) = length m"
  by (induction js arbitrary: m) simp_all

lemma fold_setCell_row_length [simp]:
  "length (fold (\<lambda>j m. setCell m i j (F j)) js m ! k) = length (m ! k)"
  by (induction js arbitrary: m) simp_all

lemma cell_fold_setCell:
  "i < length m \<Longrightarrow> \<forall>j \<in> set js. j < length (m ! i) \<Longrightarrow> distinct js \<Longrightarrow>
   cell (fold (\<lambda>j m. setCell m i j (F j)) js m) i' j'
     = (if i' = i \<and> j' \<in> set js then F j' else cell m i' j')"
proof (induction js arbitrary: m)
  case Nil
  then show ?case by simp
next
  case (Cons j js)
  have "cell (fold (\<lambda>j m. setCell m i j (F j)) js (setCell m i j (F j))) i' j'
      = (if i' = i \<and> j' \<in> set js then F j' else cell (setCell m i j (F j)) i' j')"
    using Cons.prems by (intro Cons.IH) simp_all
  then show ?case using Cons.prems by (auto simp: cell_setCell)
qed

lemma rows_fold_length [simp]:
  "length (fold (\<lambda>i. fold (\<lambda>j m. setCell m i j (F i j)) js) is m) = length m"
  by (induction "is" arbitrary: m) simp_all

lemma rows_fold_row_length [simp]:
  "length (fold (\<lambda>i. fold (\<lambda>j m. setCell m i j (F i j)) js) is m ! k) = length (m ! k)"
  by (induction "is" arbitrary: m) simp_all

lemma cell_rows_fold:
  "\<forall>i \<in> set is. i < length m \<and> (\<forall>j \<in> set js. j < length (m ! i)) \<Longrightarrow>
   distinct is \<Longrightarrow> distinct js \<Longrightarrow>
   cell (fold (\<lambda>i. fold (\<lambda>j m. setCell m i j (F i j)) js) is m) i' j'
     = (if i' \<in> set is \<and> j' \<in> set js then F i' j' else cell m i' j')"
proof (induction "is" arbitrary: m)
  case Nil
  then show ?case by simp
next
  case (Cons i "is")
  let ?m1 = "fold (\<lambda>j m. setCell m i j (F i j)) js m"
  have "cell (fold (\<lambda>i. fold (\<lambda>j m. setCell m i j (F i j)) js) is ?m1) i' j'
      = (if i' \<in> set is \<and> j' \<in> set js then F i' j' else cell ?m1 i' j')"
    using Cons.prems by (intro Cons.IH) simp_all
  moreover have "cell ?m1 i' j' = (if i' = i \<and> j' \<in> set js then F i j' else cell m i' j')"
    using Cons.prems by (intro cell_fold_setCell) simp_all
  ultimately show ?case using Cons.prems by auto
qed

lemma checkLoops_eq:
  "checkLoops fpropCost eps base nCases rows cols (W0, W0, ng)
    = (W0, W0, fold (\<lambda>i. fold (\<lambda>j m. setCell m i j
                        (numericEntry fpropCost eps base nCases W0 i j)) [0..<cols]) [0..<rows] ng)"
  by (simp add: checkLoops_def outer_fold_eq)

lemma checkGradientsW_weights:
  "getW (weightsAfter (checkGradientsW fpropCost nCases eps w g)) = getW w"
  by (simp add: checkGradientsW_def Let_def checkLoops_eq)

lemma checkGradientsW_grads:
  "getGrads (weightsAfter (checkGradientsW fpropCost nCases eps w g))
     = scale (- 1 / real_of_int nCases) (getGrads w)"
  by (simp add: checkGradientsW_def Let_def checkLoops_eq)

lemma checkGradientsW_numGrads:
  assumes "i < getNumRows (getW w)" "j < getNumCols (getW w)"
  shows "cell (numGradsOut (checkGradientsW fpropCost nCases eps w g)) i j
     = numericEntry fpropCost eps (baseErr g) nCases (getW w) i j"
proof -
  let ?ng0 = "replicate (getNumRows (getW w)) (replicate (getNumCols (getW w)) (0::real))"
  have "cell (fold (\<lambda>i. fold (\<lambda>j m. setCell m i j
            (numericEntry fpropCost eps (baseErr g) nCases (getW w) i j))
              [0..<getNumCols (getW w)]) [0..<getNumRows (getW w)] ?ng0) i j
     = (if i \<in> set [0..<getNumRows (getW w)] \<and> j \<in> set [0..<getNumCols (getW w)]
        then numericEntry fpropCost eps (baseErr g) nCases (getW w) i j else cell ?ng0 i j)"
    by (intro cell_rows_fold) simp_all
  then show ?thesis using assms
    by (simp add: checkGradientsW_def Let_def checkLoops_eq)
qed

lemma scale_fixed_zero:
  assumes "scale a m = m" and "a \<noteq> 1" and "row \<in> set m" and "x \<in> set row"
  shows "x = 0"
proof -
  from assms(1) have "map (map (\<lambda>x. x * a)) m = map id m" by (simp add: scale_def)
  then have "map (\<lambda>x. x * a) row = id row" using assms(3) by (simp only: map_eq_conv)
  then have "map (\<lambda>x. x * a) row = map id row" by simp
  then have "x * a = id x" using assms(4) by (simp only: map_eq_conv)
  then show ?thesis using assms(2) by simp
qed

text \<open>
  C3. For every weight matrix checked by \<^verbatim>\<open>LayerGraph::checkGradientsW\<close> with
  perturbation \<open>eps\<close> (case count and \<open>eps\<close> not zero), the numeric gradient entry at
  \<open>(i, j)\<close> is the cost after adding \<open>eps\<close> to the weight at \<open>(i, j)\<close> minus the
  baseline cost, divided by the case count times \<open>eps\<close>; the analytic gradient it is
  compared with is the accumulated gradient, negated and divided by the case count;
  and, the analytic gradient having a norm other than zero, the check fails if and
  only if the Frobenius norm of the difference divided by the Frobenius norm of the
  analytic gradient is at least 0.02. The failure is counted.
\<close>

theorem checkGradientsW_numeric_vs_analytic:
  assumes "nCases \<noteq> 0" and "eps \<noteq> 0"
    and "r = checkGradientsW fpropCost nCases eps w g"
  shows "(\<forall>i < getNumRows (getW w). \<forall>j < getNumCols (getW w).
            cell (numGradsOut r) i j
              = (fpropCost (setCell (getW w) i j (cell (getW w) i j + eps)) - baseErr g)
                / (real_of_int nCases * eps)) \<and>
         gradsCPUOut r = map (map (\<lambda>x. - x / real_of_int nCases)) (getGrads w) \<and>
         (norm (gradsCPUOut r) \<noteq> 0 \<longrightarrow>
            (fail r \<longleftrightarrow>
               norm (subtract (numGradsOut r) (gradsCPUOut r)) / norm (gradsCPUOut r) \<ge> 0.02)) \<and>
         numTests (graphAfter r) = numTests g + 1 \<and>
         numFailures (graphAfter r) = numFailures g + (if fail r then 1 else 0)"
proof -
  have num: "\<forall>i < getNumRows (getW w). \<forall>j < getNumCols (getW w).
            cell (numGradsOut r) i j
              = (fpropCost (setCell (getW w) i j (cell (getW w) i j + eps)) - baseErr g)
                / (real_of_int nCases * eps)"
    using checkGradientsW_numGrads [of _ w _ fpropCost nCases eps g]
    by (simp add: assms(3) numericEntry_def)
  have anal: "gradsCPUOut r = map (map (\<lambda>x. - x / real_of_int nCases)) (getGrads w)"
    by (simp add: assms(3) checkGradientsW_def Let_def checkLoops_eq scale_def)
  have rest: "(norm (gradsCPUOut r) \<noteq> 0 \<longrightarrow>
            (fail r \<longleftrightarrow>
               norm (subtract (numGradsOut r) (gradsCPUOut r)) / norm (gradsCPUOut r) \<ge> 0.02)) \<and>
         numTests (graphAfter r) = numTests g + 1 \<and>
         numFailures (graphAfter r) = numFailures g + (if fail r then 1 else 0)"
    by (simp add: assms(3) checkGradientsW_def Let_def checkLoops_eq relErrFails_def
        GC_REL_ERR_THRESH_def)
  from num anal rest show ?thesis by blast
qed

theorem checkGradientsW_numeric_vs_analytic_witness:
  "(2::int) \<noteq> 0 \<and> (1 / 2 :: real) \<noteq> 0 \<and>
   norm (gradsCPUOut (checkGradientsW exampleCost 2 (1 / 2) exampleWeights exampleCheck)) \<noteq> 0 \<and>
   cell (numGradsOut (checkGradientsW exampleCost 2 (1 / 2) exampleWeights exampleCheck)) 0 0 = 1 \<and>
   gradsCPUOut (checkGradientsW exampleCost 2 (1 / 2) exampleWeights exampleCheck) = [[2]]"
proof -
  have h1: "(2::int) \<noteq> 0" and h2: "(1 / 2 :: real) \<noteq> 0" by simp_all
  note t = checkGradientsW_numeric_vs_analytic
    [where nCases = 2 and eps = "1 / 2" and fpropCost = exampleCost and w = exampleWeights
       and g = exampleCheck, OF h1 h2 refl]
  have g: "gradsCPUOut (checkGradientsW exampleCost 2 (1 / 2) exampleWeights exampleCheck) = [[2]]"
    using t by (simp add: exampleWeights_def)
  have n: "norm [[2]] \<noteq> 0" by (simp add: norm_def norm2_def)
  have c: "cell (numGradsOut (checkGradientsW exampleCost 2 (1 / 2) exampleWeights exampleCheck)) 0 0 = 1"
    using t
    by (simp add: exampleWeights_def exampleCheck_def exampleCost_def getNumRows_def
        getNumCols_def setCell_def cell_def)
  from g n c show ?thesis by simp
qed

text \<open>
  C10. After \<^verbatim>\<open>LayerGraph::checkGradientsW\<close> returns, the checked weight matrix
  holds exactly the values it held on entry, whereas the gradient accumulator of the
  weights has been scaled in place by minus one over the case count (the case count
  not being zero); for a positive case count and an accumulator with an entry other
  than zero, it no longer holds the values it held on entry.
\<close>

theorem checkGradientsW_side_effects:
  assumes "r = checkGradientsW fpropCost nCases eps w g"
  shows "getW (weightsAfter r) = getW w \<and>
         (nCases \<noteq> 0 \<longrightarrow>
            getGrads (weightsAfter r) = scale (- 1 / real_of_int nCases) (getGrads w)) \<and>
         (nCases > 0 \<and> (\<exists>row \<in> set (getGrads w). \<exists>x \<in> set row. x \<noteq> 0) \<longrightarrow>
            getGrads (weightsAfter r) \<noteq> getGrads w)"
proof -
  have ne: "getGrads (weightsAfter r) \<noteq> getGrads w"
    if "nCases > 0" and "row \<in> set (getGrads w)" and "x \<in> set row" and "x \<noteq> 0" for row x
  proof
    assume "getGrads (weightsAfter r) = getGrads w"
    then have fx: "scale (- 1 / real_of_int nCases) (getGrads w) = getGrads w"
      by (simp add: assms checkGradientsW_grads)
    have "- 1 / real_of_int nCases < 0" using that(1) by simp
    then have "- 1 / real_of_int nCases \<noteq> 1" by linarith
    from scale_fixed_zero [OF fx this that(2) that(3)] that(4) show False by simp
  qed
  show ?thesis
    using ne by (auto simp: assms checkGradientsW_weights checkGradientsW_grads)
qed

theorem checkGradientsW_side_effects_witness:
  "(2::int) > 0 \<and> (\<exists>row \<in> set (getGrads exampleWeights). \<exists>x \<in> set row. x \<noteq> 0) \<and>
   getW (weightsAfter (checkGradientsW exampleCost 2 (1 / 2) exampleWeights exampleCheck)) = [[1]] \<and>
   getGrads (weightsAfter (checkGradientsW exampleCost 2 (1 / 2) exampleWeights exampleCheck)) = [[2]] \<and>
   getGrads (weightsAfter (checkGradientsW exampleCost 2 (1 / 2) exampleWeights exampleCheck))
     \<noteq> getGrads exampleWeights"
proof -
  have h: "\<exists>row \<in> set (getGrads exampleWeights). \<exists>x \<in> set row. x \<noteq> 0"
    by (simp add: exampleWeights_def)
  have pos: "(2::int) > 0" by simp
  note t = checkGradientsW_side_effects
    [where nCases = 2 and eps = "1 / 2" and fpropCost = exampleCost and w = exampleWeights
       and g = exampleCheck, OF refl]
  have w: "getW (weightsAfter (checkGradientsW exampleCost 2 (1 / 2) exampleWeights exampleCheck)) = [[1]]"
    using t by (simp add: exampleWeights_def)
  have g: "getGrads (weightsAfter (checkGradientsW exampleCost 2 (1 / 2) exampleWeights exampleCheck)) = [[2]]"
    using t by (simp add: exampleWeights_def scale_def)
  have ne: "getGrads (weightsAfter (checkGradientsW exampleCost 2 (1 / 2) exampleWeights exampleCheck))
     \<noteq> getGrads exampleWeights"
    using t pos h by blast
  from h w g ne show ?thesis by simp
qed

subsection \<open>Helper facts about the state\<close>

lemma updLayer_length [simp]: "length (layerStates (updLayer i f s)) = length (layerStates s)"
  by (simp add: updLayer_def)

lemma updLayer_fpropLog [simp]: "fpropLog (updLayer i f s) = fpropLog s"
  by (simp add: updLayer_def)

lemma updLayer_gradLog [simp]: "gradLog (updLayer i f s) = gradLog s"
  by (simp add: updLayer_def)



lemma getRcvdBInputs_updLayer:
  "i < length (layerStates s) \<Longrightarrow>
   getRcvdBInputs (updLayer i f s) q
     = (if q = i then rcvdBInputs (f (layerStates s ! i)) else getRcvdBInputs s q)"
  by (simp add: getRcvdBInputs_def updLayer_def nth_list_update)

lemma getActGrads_updLayer:
  "i < length (layerStates s) \<Longrightarrow>
   getActGrads (updLayer i f s) q
     = (if q = i then actGrads (f (layerStates s ! i)) else getActGrads s q)"
  by (simp add: getActGrads_def updLayer_def nth_list_update)

subsection \<open>C4: first writer overwrites, later writers accumulate\<close>

lemma map2_plus_commute: "map2 (+) xs ys = map2 (+) ys (xs :: real list)"
proof (induction xs arbitrary: ys)
  case Nil
  then show ?case by simp
next
  case (Cons x xs)
  then show ?case by (cases ys) (simp_all add: add.commute)
qed

lemma map2_plus_assoc: "map2 (+) (map2 (+) xs ys) zs = map2 (+) xs (map2 (+) ys (zs :: real list))"
proof (induction xs arbitrary: ys zs)
  case Nil
  then show ?case by simp
next
  case (Cons x xs)
  then show ?case by (cases ys; cases zs) (simp_all add: add.assoc)
qed

lemma matrix_add_commute: "add a b = add b a"
  unfolding add_def
proof (induction a arbitrary: b)
  case Nil
  then show ?case by simp
next
  case (Cons x xs)
  then show ?case by (cases b) (simp_all add: map2_plus_commute)
qed

lemma matrix_add_assoc: "add (add a b) c = add a (add b c)"
  unfolding add_def
proof (induction a arbitrary: b c)
  case Nil
  then show ?case by simp
next
  case (Cons x xs)
  then show ?case by (cases b; cases c) (simp_all add: map2_plus_assoc)
qed

lemma matrix_add_left_commute: "add (add acc x) y = add (add acc y) x"
  by (metis matrix_add_assoc matrix_add_commute)

lemma scale_one [simp]: "scale 1 m = m"
  by (simp add: scale_def)

lemma FCLayer_contribute_eq:
  "FCLayer_contribute v w l = contribute (rightMult v (getTranspose w)) l"
  by (simp add: FCLayer_contribute_def contribute_def addProduct_def Let_def)

lemma fold_add_perm:
  "mset gs = mset gs' \<Longrightarrow> fold (\<lambda>h acc. add acc h) gs a = fold (\<lambda>h acc. add acc h) gs' a"
proof -
  assume m: "mset gs = mset gs'"
  have "fold (\<lambda>h acc. add acc h) gs = fold (\<lambda>h acc. add acc h) gs'"
    by (rule fold_multiset_equiv [OF _ m]) (auto simp: fun_eq_iff matrix_add_left_commute)
  then show ?thesis by simp
qed

lemma sumContributions_perm:
  assumes "mset gs = mset gs'"
  shows "sumContributions gs = sumContributions gs'"
proof (cases gs)
  case Nil
  with assms show ?thesis by simp
next
  case (Cons g rest)
  with assms obtain g' rest' where gs': "gs' = g' # rest'"
    by (cases gs') auto
  show ?thesis
  proof (cases "g = g'")
    case True
    then have "mset rest = mset rest'" using assms Cons gs' by simp
    from fold_add_perm [OF this] show ?thesis using Cons gs' True by simp
  next
    case False
    have "g' \<in># mset gs" using assms gs' by simp
    then have g'in: "g' \<in> set rest" using False Cons by auto
    then obtain r where r: "mset rest = mset (g' # r)"
      by (metis insert_DiffM mset.simps(2) ex_mset set_mset_mset)
    have "mset (g # rest) = mset (g' # rest')" using assms Cons gs' by simp
    then have r': "mset rest' = mset (g # r)" using r
      by (simp add: add_mset_commute)
    have "sumContributions gs = fold (\<lambda>h acc. add acc h) (g' # r) g"
      using Cons fold_add_perm [OF r] by simp
    also have "\<dots> = fold (\<lambda>h acc. add acc h) r (add g g')" by simp
    also have "\<dots> = fold (\<lambda>h acc. add acc h) r (add g' g)" by (simp add: matrix_add_commute)
    also have "\<dots> = fold (\<lambda>h acc. add acc h) (g # r) g'" by simp
    also have "\<dots> = sumContributions gs'" using gs' fold_add_perm [OF r'] by simp
    finally show ?thesis .
  qed
qed

lemma sumContributions_snoc:
  "gs \<noteq> [] \<Longrightarrow> sumContributions (gs @ [g]) = add (sumContributions gs) g"
  by (cases gs) simp_all

lemma contribsTo_append: "contribsTo p (xs @ ys) = contribsTo p xs @ contribsTo p ys"
  by (induction p xs rule: contribsTo.induct) simp_all

lemma contribsTo_Contributed:
  "contribsTo q (es @ [Contributed p g]) = (if p = q then contribsTo q es @ [g] else contribsTo q es)"
  by (simp add: contribsTo_append)

lemma contribsTo_Handed: "contribsTo q (es @ [Handed p v]) = contribsTo q es"
  by (simp add: contribsTo_append)

lemma handedOK_Nil: "handedOK layers []"
  by (simp add: handedOK_def)

lemma handedOK_Contributed: "handedOK layers es \<Longrightarrow> handedOK layers (es @ [Contributed p g])"
  unfolding handedOK_def
proof (intro allI impI)
  fix k q v
  assume ok: "\<forall>k < length es. \<forall>p v. es ! k = Handed p v \<longrightarrow>
        v = sumContributions (contribsTo p (take k es)) \<and>
        contribsTo p (take k es) \<noteq> [] \<and>
        length (contribsTo p (take k es)) = numGradProducersNext (layers ! p)"
    and k: "k < length (es @ [Contributed p g])"
    and e: "(es @ [Contributed p g]) ! k = Handed q v"
  have "k < length es"
  proof (rule ccontr)
    assume "\<not> k < length es"
    then have "k = length es" using k by simp
    then show False using e by simp
  qed
  then show "v = sumContributions (contribsTo q (take k (es @ [Contributed p g]))) \<and>
        contribsTo q (take k (es @ [Contributed p g])) \<noteq> [] \<and>
        length (contribsTo q (take k (es @ [Contributed p g]))) = numGradProducersNext (layers ! q)"
    using ok e by (simp add: nth_append)
qed

lemma handedOK_Handed:
  assumes "handedOK layers es" and "v = sumContributions (contribsTo p es)"
    and "length (contribsTo p es) = numGradProducersNext (layers ! p)"
    and "contribsTo p es \<noteq> []"
  shows "handedOK layers (es @ [Handed p v])"
  unfolding handedOK_def
proof (intro allI impI)
  fix k q w
  assume k: "k < length (es @ [Handed p v])" and e: "(es @ [Handed p v]) ! k = Handed q w"
  show "w = sumContributions (contribsTo q (take k (es @ [Handed p v]))) \<and>
        contribsTo q (take k (es @ [Handed p v])) \<noteq> [] \<and>
        length (contribsTo q (take k (es @ [Handed p v]))) = numGradProducersNext (layers ! q)"
  proof (cases "k < length es")
    case True
    then show ?thesis using assms(1) e by (simp add: handedOK_def nth_append)
  next
    case False
    then have "k = length es" using k by simp
    then show ?thesis using e assms(2,3,4) by auto
  qed
qed

lemma handedOK_split:
  assumes "handedOK layers es" and "es = before @ Handed p v # after"
  shows "v = sumContributions (contribsTo p before) \<and>
         contribsTo p before \<noteq> [] \<and>
         length (contribsTo p before) = numGradProducersNext (layers ! p)"
proof -
  have "length before < length es" and "es ! length before = Handed p v"
    and "take (length before) es = before"
    using assms(2) by simp_all
  then show ?thesis using assms(1) unfolding handedOK_def by metis
qed

lemma writeGrad_length [simp]: "length (layerStates (writeGrad p g s)) = length (layerStates s)"
  by (simp add: writeGrad_def logContribution_def)

lemma writeGrad_gradLog [simp]: "gradLog (writeGrad p g s) = gradLog s @ [Contributed p g]"
  by (simp add: writeGrad_def logContribution_def)

lemma writeGrad_rcvd [simp]: "getRcvdBInputs (writeGrad p g s) q = getRcvdBInputs s q"
proof (cases "p < length (layerStates s)")
  case True
  then show ?thesis
    by (simp add: writeGrad_def logContribution_def getRcvdBInputs_def updLayer_def
        nth_list_update contribute_def)
next
  case False
  then show ?thesis
    by (simp add: writeGrad_def logContribution_def getRcvdBInputs_def updLayer_def
        not_less list_update_beyond)
qed

lemma writeGrad_actGrads:
  "p < length (layerStates s) \<Longrightarrow>
   getActGrads (writeGrad p g s) q
     = (if q = p then (if getRcvdBInputs s p = 0 then g else add (getActGrads s p) g)
        else getActGrads s q)"
  by (simp add: writeGrad_def logContribution_def getActGrads_def getRcvdBInputs_def
      updLayer_def nth_list_update contribute_def)

lemma FCLayer_write:
  "logContribution p (rightMult v (getTranspose w)) (updLayer p (FCLayer_contribute v w) s)
     = writeGrad p (rightMult v (getTranspose w)) s"
proof -
  have "FCLayer_contribute v w = contribute (rightMult v (getTranspose w))"
    by (rule ext) (rule FCLayer_contribute_eq)
  then show ?thesis by (simp add: writeGrad_def)
qed

lemma writeGrad_pending:
  assumes p: "p < length (layerStates s)" and st: "settled layers s p"
  shows "pending layers (writeGrad p g s) p"
proof -
  have n: "getRcvdBInputs s p = length (contribsTo p (gradLog s))"
    using st by (simp add: settled_def)
  have buf: "getActGrads (writeGrad p g s) p
      = sumContributions (contribsTo p (gradLog s) @ [g])"
    if lt: "getRcvdBInputs s p < numGradProducersNext (layers ! p)"
  proof (cases "getRcvdBInputs s p = 0")
    case True
    then have "contribsTo p (gradLog s) = []" using n by simp
    then show ?thesis using p True by (simp add: writeGrad_actGrads)
  next
    case False
    then have ne: "contribsTo p (gradLog s) \<noteq> []" using n by auto
    have "getActGrads s p = sumContributions (contribsTo p (gradLog s))"
      using st False lt by (simp add: settled_def)
    then show ?thesis using p False by (simp add: writeGrad_actGrads sumContributions_snoc [OF ne])
  qed
  show ?thesis using n buf by (simp add: pending_def contribsTo_Contributed)
qed

lemma writeGrad_settled:
  assumes p: "p < length (layerStates s)" and q: "q \<noteq> p" and st: "settled layers s q"
  shows "settled layers (writeGrad p g s) q"
  using assms by (simp add: settled_def contribsTo_Contributed writeGrad_actGrads)

lemma writeGrad_inv:
  assumes inv: "bpropInv layers s" and p: "p < length layers"
  shows "bpropInvExcept layers (writeGrad p g s) p"
proof -
  have len: "length (layerStates s) = length layers" using inv by (simp add: bpropInv_def)
  have pl: "p < length (layerStates s)" using p len by simp
  have "handedOK layers (gradLog (writeGrad p g s))"
    using inv by (simp add: bpropInv_def handedOK_Contributed)
  moreover have "if q = p then pending layers (writeGrad p g s) q
                 else settled layers (writeGrad p g s) q"
    if "q < length layers" "counts layers q" for q
  proof (cases "q = p")
    case True
    have "settled layers s p" using inv that True by (simp add: bpropInv_def)
    from writeGrad_pending [OF pl this] True show ?thesis by simp
  next
    case False
    have "settled layers s q" using inv that by (simp add: bpropInv_def)
    from writeGrad_settled [OF pl False this] False show ?thesis by simp
  qed
  ultimately show ?thesis using len by (simp add: bpropInvExcept_def)
qed

lemma bpropInv_Except: "bpropInv layers s = bpropInvExcept layers s (length layers)"
  by (auto simp: bpropInv_def bpropInvExcept_def)

lemma bpropInvExcept_other:
  "\<not> counts layers p \<Longrightarrow> bpropInvExcept layers s p = bpropInv layers s"
  by (auto simp: bpropInv_def bpropInvExcept_def)

lemma updLayer_rcvd_same:
  "(\<And>l. rcvdBInputs (f l) = rcvdBInputs l) \<Longrightarrow>
   getRcvdBInputs (updLayer i f s) q = getRcvdBInputs s q"
proof (cases "i < length (layerStates s)")
  case True
  assume "\<And>l. rcvdBInputs (f l) = rcvdBInputs l"
  with True show ?thesis by (simp add: getRcvdBInputs_updLayer) (simp add: getRcvdBInputs_def)
next
  case False
  then show ?thesis by (simp add: getRcvdBInputs_def updLayer_def not_less list_update_beyond)
qed

lemma own_update_settled:
  assumes i: "i < length (layerStates s)"
    and f: "\<And>l. rcvdBInputs (f l) = rcvdBInputs l"
    and fired: "numGradProducersNext (layers ! i) \<le> getRcvdBInputs s i"
  shows "settled layers (updLayer i f s) q = settled layers s q"
    and "q \<noteq> i \<Longrightarrow> pending layers (updLayer i f s) q = pending layers s q"
proof -
  have r: "getRcvdBInputs (updLayer i f s) k = getRcvdBInputs s k" for k
    using f by (rule updLayer_rcvd_same)
  have a: "getActGrads (updLayer i f s) k = getActGrads s k" if "k \<noteq> i" for k
    using i that by (simp add: getActGrads_updLayer)
  show "settled layers (updLayer i f s) q = settled layers s q"
  proof (cases "q = i")
    case True
    then show ?thesis using fired by (simp add: settled_def r)
  next
    case False
    then show ?thesis by (simp add: settled_def r a)
  qed
  show "pending layers (updLayer i f s) q = pending layers s q" if "q \<noteq> i"
    using that by (simp add: pending_def r a)
qed

lemma own_update_inv:
  assumes inv: "bpropInvExcept layers s p" and ip: "i \<noteq> p" and i: "i < length layers"
    and f: "\<And>l. rcvdBInputs (f l) = rcvdBInputs l"
    and fired: "numGradProducersNext (layers ! i) \<le> getRcvdBInputs s i"
  shows "bpropInvExcept layers (updLayer i f s) p"
proof -
  have len: "length (layerStates s) = length layers" using inv by (simp add: bpropInvExcept_def)
  have il: "i < length (layerStates s)" using i len by simp
  have "if q = p then pending layers (updLayer i f s) q else settled layers (updLayer i f s) q"
    if "q < length layers" "counts layers q" for q
  proof (cases "q = p")
    case True
    then have "q \<noteq> i" using ip by simp
    from own_update_settled(2) [OF il f fired this] inv that True
    show ?thesis by (simp add: bpropInvExcept_def)
  next
    case False
    from own_update_settled(1) [OF il f fired, where q = q] inv that False
    show ?thesis by (simp add: bpropInvExcept_def)
  qed
  then show ?thesis using inv len by (simp add: bpropInvExcept_def)
qed

lemma own_update_inv':
  assumes inv: "bpropInv layers s" and i: "i < length layers"
    and f: "\<And>l. rcvdBInputs (f l) = rcvdBInputs l"
    and fired: "numGradProducersNext (layers ! i) \<le> getRcvdBInputs s i"
  shows "bpropInv layers (updLayer i f s)"
proof -
  have "i \<noteq> length layers" using i by simp
  from own_update_inv [OF inv [unfolded bpropInv_Except] this i f fired]
  show ?thesis by (simp add: bpropInv_Except)
qed

lemma truncActGrads_inv:
  assumes inv: "bpropInvExcept layers s p" and ip: "i \<noteq> p" and i: "i < length layers"
    and fired: "numGradProducersNext (layers ! i) \<le> getRcvdBInputs s i"
  shows "bpropInvExcept layers (truncActGrads i s) p"
proof (cases "saveBwdActs s")
  case True
  then show ?thesis using inv by (simp add: truncActGrads_def)
next
  case False
  have "bpropInvExcept layers
      (updLayer i (\<lambda>l. l\<lparr>actGrads := NVMatrix_truncate (actGrads l)\<rparr>) s) p"
    using inv ip i _ fired by (rule own_update_inv) simp
  then show ?thesis using False by (simp add: truncActGrads_def)
qed

lemma truncActGrads_inv':
  assumes inv: "bpropInv layers s" and i: "i < length layers"
    and fired: "numGradProducersNext (layers ! i) \<le> getRcvdBInputs s i"
  shows "bpropInv layers (truncActGrads i s)"
proof -
  have "i \<noteq> length layers" using i by simp
  from truncActGrads_inv [OF inv [unfolded bpropInv_Except] this i fired]
  show ?thesis by (simp add: bpropInv_Except)
qed

lemma truncActGrads_rcvd [simp]: "getRcvdBInputs (truncActGrads i s) q = getRcvdBInputs s q"
proof (cases "i < length (layerStates s)")
  case True
  then show ?thesis by (simp add: truncActGrads_def getRcvdBInputs_updLayer) (simp add: getRcvdBInputs_def)
next
  case False
  then show ?thesis
    by (simp add: truncActGrads_def getRcvdBInputs_def updLayer_def not_less list_update_beyond)
qed

lemma handed_inv:
  assumes inv: "bpropInv layers s"
    and buf: "getActGrads s i = sumContributions (contribsTo i (gradLog s))"
    and n: "length (contribsTo i (gradLog s)) = numGradProducersNext (layers ! i)"
    and fired: "0 < numGradProducersNext (layers ! i)"
  shows "bpropInv layers (s\<lparr>gradLog := gradLog s @ [Handed i (getActGrads s i)]\<rparr>)"
proof -
  have "contribsTo i (gradLog s) \<noteq> []" using n fired by auto
  then have "handedOK layers (gradLog s @ [Handed i (getActGrads s i)])"
    using inv buf n by (simp add: bpropInv_def handedOK_Handed)
  then show ?thesis
    using inv
    by (simp add: bpropInv_def settled_def contribsTo_Handed getRcvdBInputs_def getActGrads_def)
qed

lemma count_inv:
  assumes inv: "bpropInvExcept layers s i" and i: "i < length layers" and c: "counts layers i"
  shows "bpropInv layers (updLayer i countBInput s)"
    and "getRcvdBInputs (updLayer i countBInput s) i = getRcvdBInputs s i + 1"
    and "getRcvdBInputs s i + 1 = numGradProducersNext (layers ! i) \<Longrightarrow>
         getActGrads (updLayer i countBInput s) i
           = sumContributions (contribsTo i (gradLog (updLayer i countBInput s))) \<and>
         length (contribsTo i (gradLog (updLayer i countBInput s)))
           = numGradProducersNext (layers ! i)"
proof -
  have len: "length (layerStates s) = length layers" using inv by (simp add: bpropInvExcept_def)
  have il: "i < length (layerStates s)" using i len by simp
  have pe: "pending layers s i" using inv i c by (simp add: bpropInvExcept_def)
  show r: "getRcvdBInputs (updLayer i countBInput s) i = getRcvdBInputs s i + 1"
    using il by (simp add: getRcvdBInputs_updLayer countBInput_def) (simp add: getRcvdBInputs_def)
  have a: "getActGrads (updLayer i countBInput s) q = getActGrads s q" for q
    using il by (simp add: getActGrads_updLayer countBInput_def) (simp add: getActGrads_def)
  have ro: "getRcvdBInputs (updLayer i countBInput s) q = getRcvdBInputs s q" if "q \<noteq> i" for q
    using il that by (simp add: getRcvdBInputs_updLayer)
  have "settled layers (updLayer i countBInput s) q" if "q < length layers" "counts layers q" for q
  proof (cases "q = i")
    case True
    then show ?thesis using pe r a [of i] by (simp add: settled_def pending_def)
  next
    case False
    then have "settled layers s q" using inv that by (simp add: bpropInvExcept_def)
    then show ?thesis using ro [OF False] a [of q] by (simp add: settled_def)
  qed
  then show "bpropInv layers (updLayer i countBInput s)"
    using inv len by (simp add: bpropInv_def bpropInvExcept_def)
  show "getActGrads (updLayer i countBInput s) i
           = sumContributions (contribsTo i (gradLog (updLayer i countBInput s))) \<and>
         length (contribsTo i (gradLog (updLayer i countBInput s)))
           = numGradProducersNext (layers ! i)"
    if "getRcvdBInputs s i + 1 = numGradProducersNext (layers ! i)"
    using pe that a [of i] by (simp add: pending_def)
qed

lemma countersGrow_refl: "countersGrow layers s s"
  by (simp add: countersGrow_def)

lemma countersGrow_trans:
  "countersGrow layers s s1 \<Longrightarrow> countersGrow layers s1 s2 \<Longrightarrow> countersGrow layers s s2"
  unfolding countersGrow_def by (meson le_trans)

lemma countersGrow_eq:
  "(\<And>q. getRcvdBInputs s' q = getRcvdBInputs s q) \<Longrightarrow> countersGrow layers s s'"
  by (simp add: countersGrow_def)

lemma FCLayer_loop_inv:
  assumes static: "bpropStatic layers" and i: "i < length layers"
    and IH: "\<And>p s s'. p < i \<Longrightarrow> bpropInvExcept layers s p \<Longrightarrow> bprop K layers p s = Inr s' \<Longrightarrow>
               bpropInv layers s' \<and> countersGrow layers s s'"
  shows "bpropInv layers s \<Longrightarrow> numGradProducersNext (layers ! i) \<le> getRcvdBInputs s i \<Longrightarrow>
         FCLayer_loop K layers i k ps s = Inr s' \<Longrightarrow>
         bpropInv layers s' \<and> countersGrow layers s s'"
proof (induction ps arbitrary: k s)
  case Nil
  then show ?case by (simp add: FCLayer_loop.simps countersGrow_refl)
next
  case (Cons p ps)
  define v where "v = getActGrads s i"
  define w where "w = weightsOf (layerStates s ! i) ! k"
  define s1 where "s1 = (if propagateGrad (layers ! p)
                         then writeGrad p (rightMult v (getTranspose (getW w))) s else s)"
  define s2 where "s2 = updLayer i (\<lambda>l. l\<lparr>weightsOf := (weightsOf l)
      [k := FCLayer_updateInc (isCheckingGrads s1) (numCases s1) (getActs s1 p) v w]\<rparr>) s1"
  have run: "FCLayer_loop K layers i k (p # ps) s =
      (if k < length (weightsOf (layerStates s ! i)) then
         if p < i then
           (case bprop K layers p s2 of
              Inl e \<Rightarrow> Inl e
            | Inr s3 \<Rightarrow> FCLayer_loop K layers i (k + 1) ps s3)
         else Inl BadTopology
       else Inl OutOfRange)"
    by (simp add: FCLayer_loop.simps(2) [of K layers i k p ps s] Let_def s2_def s1_def v_def w_def
        FCLayer_write)
  from Cons.prems(3) run obtain s3 where pi: "p < i" and b: "bprop K layers p s2 = Inr s3"
    and rest: "FCLayer_loop K layers i (k + 1) ps s3 = Inr s'"
    by (auto split: if_splits sum.splits)
  have pl: "p < length layers" using pi i by simp
  have e1: "bpropInvExcept layers s1 p"
  proof (cases "propagateGrad (layers ! p)")
    case True
    then show ?thesis using writeGrad_inv [OF Cons.prems(1) pl] by (simp add: s1_def)
  next
    case False
    then have "kind (layers ! p) = DataLayer" using static pl by (auto simp: bpropStatic_def)
    then have "\<not> counts layers p" by (simp add: counts_def)
    then show ?thesis using Cons.prems(1) False by (simp add: s1_def bpropInvExcept_other)
  qed
  have r1: "getRcvdBInputs s1 q = getRcvdBInputs s q" for q by (simp add: s1_def)
  have ip: "i \<noteq> p" using pi by simp
  have fired1: "numGradProducersNext (layers ! i) \<le> getRcvdBInputs s1 i"
    using Cons.prems(2) r1 by simp
  have e2: "bpropInvExcept layers s2 p"
    unfolding s2_def using e1 ip i _ fired1 by (rule own_update_inv) simp
  have r2: "getRcvdBInputs s2 q = getRcvdBInputs s q" for q
    unfolding s2_def by (simp add: updLayer_rcvd_same r1)
  from IH [OF pi e2 b] have inv3: "bpropInv layers s3" and g3: "countersGrow layers s2 s3"
    by simp_all
  have fired3: "numGradProducersNext (layers ! i) \<le> getRcvdBInputs s3 i"
    using g3 i r2 [of i] Cons.prems(2) by (auto simp: countersGrow_def)
  from Cons.IH [OF inv3 fired3 rest]
  have inv': "bpropInv layers s'" and g': "countersGrow layers s3 s'" by simp_all
  have "countersGrow layers s s2" by (rule countersGrow_eq) (simp add: r2)
  then have "countersGrow layers s s'" using g3 g' countersGrow_trans by blast
  with inv' show ?case by simp
qed

lemma Layer_bpropV_inv:
  assumes static: "bpropStatic layers" and i: "i < length layers"
    and IH: "\<And>p s s'. p < i \<Longrightarrow> bpropInvExcept layers s p \<Longrightarrow> bprop K layers p s = Inr s' \<Longrightarrow>
               bpropInv layers s' \<and> countersGrow layers s s'"
    and inv: "bpropInv layers s"
    and fired: "numGradProducersNext (layers ! i) \<le> getRcvdBInputs s i"
    and buf: "getActGrads s i = sumContributions (contribsTo i (gradLog s))"
    and n: "length (contribsTo i (gradLog s)) = numGradProducersNext (layers ! i)"
    and pos: "0 < numGradProducersNext (layers ! i)"
    and c: "counts layers i"
    and run: "Layer_bpropV K layers i s = Inr s'"
  shows "bpropInv layers s' \<and> countersGrow layers s s'"
proof -
  define v where "v = getActGrads s i"
  define s0 where "s0 = s\<lparr>gradLog := gradLog s @ [Handed i v]\<rparr>"
  have inv0: "bpropInv layers s0"
    unfolding s0_def v_def using inv buf n pos by (rule handed_inv)
  have r0: "getRcvdBInputs s0 q = getRcvdBInputs s q" for q
    by (simp add: s0_def getRcvdBInputs_def)
  have fired0: "numGradProducersNext (layers ! i) \<le> getRcvdBInputs s0 i"
    using fired r0 by simp
  have nonData: "\<not> propagateGrad (layers ! p) \<Longrightarrow> p < length layers \<Longrightarrow> \<not> counts layers p" for p
    using static by (auto simp: bpropStatic_def counts_def)
  have wr: "bpropInvExcept layers (if propagateGrad (layers ! p) then writeGrad p g t else t) p"
    if "bpropInv layers t" "p < length layers" for p g t
  proof (cases "propagateGrad (layers ! p)")
    case True
    then show ?thesis using writeGrad_inv [OF that] by simp
  next
    case False
    then show ?thesis using that nonData [OF False that(2)] by (simp add: bpropInvExcept_other)
  qed
  show ?thesis
  proof (cases "kind (layers ! i)")
    case FCLayer
    define v1 where "v1 = computeInputGrads K (getActs s0 i) v"
    define s1 where "s1 = updLayer i (\<lambda>l. l\<lparr>actGrads := v1,
                                biasesOf := (biasesOf l)\<lparr>getGrads := sum0 v1\<rparr>\<rparr>) s0"
    have eq: "Layer_bpropV K layers i s =
        (case FCLayer_loop K layers i 0 (prev (layers ! i)) s1 of
           Inl e \<Rightarrow> Inl e
         | Inr s2 \<Rightarrow> Inr (truncActGrads i s2))"
      using FCLayer
      by (simp add: Layer_bpropV.simps [of K layers i s] Let_def s1_def v1_def s0_def v_def)
    from run eq obtain s2 where loop: "FCLayer_loop K layers i 0 (prev (layers ! i)) s1 = Inr s2"
      and s': "s' = truncActGrads i s2"
      by (auto split: sum.splits)
    have inv1: "bpropInv layers s1"
      unfolding s1_def using inv0 i _ fired0 by (rule own_update_inv') simp
    have r1: "getRcvdBInputs s1 q = getRcvdBInputs s q" for q
      unfolding s1_def by (simp add: updLayer_rcvd_same r0)
    have fired1: "numGradProducersNext (layers ! i) \<le> getRcvdBInputs s1 i"
      using fired r1 by simp
    from FCLayer_loop_inv [OF static i IH inv1 fired1 loop]
    have inv2: "bpropInv layers s2" and g2: "countersGrow layers s1 s2" by simp_all
    have fired2: "numGradProducersNext (layers ! i) \<le> getRcvdBInputs s2 i"
      using g2 i fired1 by (auto simp: countersGrow_def)
    have "bpropInv layers s'" unfolding s' using inv2 i fired2 by (rule truncActGrads_inv')
    moreover have "countersGrow layers s s'"
      using g2 by (simp add: countersGrow_def s' r1)
    ultimately show ?thesis by simp
  next
    case ConvLayer
    from run ConvLayer obtain p ps where pr: "prev (layers ! i) = p # ps"
      by (cases "prev (layers ! i)")
        (simp_all add: Layer_bpropV.simps [of K layers i s] Let_def)
    from run ConvLayer pr obtain w ws where ww: "weightsOf (layerStates s0 ! i) = w # ws"
      by (cases "weightsOf (layerStates s0 ! i)")
        (simp_all add: Layer_bpropV.simps [of K layers i s] Let_def s0_def v_def)
    define v1 where "v1 = computeInputGrads K (getActs s0 i) v"
    define s1 where "s1 = updLayer i (\<lambda>l. l\<lparr>actGrads := v1,
                                biasesOf := (biasesOf l)\<lparr>getGrads := sum1 v1\<rparr>\<rparr>) s0"
    define s2 where "s2 = (if propagateGrad (layers ! p)
                           then writeGrad p (convImgActs K v1 (getW w)) s1 else s1)"
    define s3 where "s3 = updLayer i (\<lambda>l. l\<lparr>weightsOf :=
                            w\<lparr>getGrads := convWeightActs K (getActs s1 p) v1\<rparr> # ws\<rparr>) s2"
    define s4 where "s4 = truncActGrads i s3"
    have eq: "Layer_bpropV K layers i s =
        (if p < i then bprop K layers p s4 else Inl BadTopology)"
    proof -
      have ww': "weightsOf (layerStates s ! i) = w # ws" using ww by (simp add: s0_def)
      show ?thesis
        using ConvLayer pr ww'
        by (simp add: Layer_bpropV.simps [of K layers i s] Let_def
            s4_def s3_def s2_def s1_def v1_def s0_def v_def)
    qed
    from run eq have pi: "p < i" and b: "bprop K layers p s4 = Inr s'"
      by (auto split: if_splits)
    have pl: "p < length layers" using pi i by simp
    have ip: "i \<noteq> p" using pi by simp
    have inv1: "bpropInv layers s1"
      unfolding s1_def using inv0 i _ fired0 by (rule own_update_inv') simp
    have r1: "getRcvdBInputs s1 q = getRcvdBInputs s q" for q
      unfolding s1_def by (simp add: updLayer_rcvd_same r0)
    have e2: "bpropInvExcept layers s2 p" unfolding s2_def using inv1 pl by (rule wr)
    have r2: "getRcvdBInputs s2 q = getRcvdBInputs s q" for q by (simp add: s2_def r1)
    have fired2: "numGradProducersNext (layers ! i) \<le> getRcvdBInputs s2 i"
      using fired r2 by simp
    have e3: "bpropInvExcept layers s3 p"
      unfolding s3_def using e2 ip i _ fired2 by (rule own_update_inv) simp
    have r3: "getRcvdBInputs s3 q = getRcvdBInputs s q" for q
      unfolding s3_def by (simp add: updLayer_rcvd_same r2)
    have fired3: "numGradProducersNext (layers ! i) \<le> getRcvdBInputs s3 i"
      using fired r3 by simp
    have e4: "bpropInvExcept layers s4 p"
      unfolding s4_def using e3 ip i fired3 by (rule truncActGrads_inv)
    have r4: "getRcvdBInputs s4 q = getRcvdBInputs s q" for q by (simp add: s4_def r3)
    from IH [OF pi e4 b] show ?thesis by (simp add: countersGrow_def r4)
  next
    case PoolLayer
    from run PoolLayer obtain p ps where pr: "prev (layers ! i) = p # ps"
      by (cases "prev (layers ! i)")
        (simp_all add: Layer_bpropV.simps [of K layers i s] Let_def)
    show ?thesis
    proof (cases "propagateGrad (layers ! p)")
      case False
      then have "s' = s0"
        using run PoolLayer pr
        by (simp add: Layer_bpropV.simps [of K layers i s] Let_def s0_def v_def)
      then show ?thesis using inv0 r0 by (simp add: countersGrow_def)
    next
      case True
      define g where "g = (if pool (layers ! i) = ''max''
                           then convLocalMaxUndo K (getActs s0 p) v (getActs s0 i)
                           else convLocalAvgUndo K v)"
      define s2 where "s2 = truncActGrads i (writeGrad p g s0)"
      have pool: "pool (layers ! i) = ''max'' \<or> pool (layers ! i) = ''avg''"
        using static i PoolLayer by (simp add: bpropStatic_def)
      have eq: "Layer_bpropV K layers i s =
          (if p < i then bprop K layers p s2 else Inl BadTopology)"
        using PoolLayer pr True pool
        by (auto simp: Layer_bpropV.simps [of K layers i s] Let_def s2_def g_def s0_def v_def)
      from run eq have pi: "p < i" and b: "bprop K layers p s2 = Inr s'"
        by (auto split: if_splits)
      have pl: "p < length layers" using pi i by simp
      have ip: "i \<noteq> p" using pi by simp
      have e1: "bpropInvExcept layers (writeGrad p g s0) p" using inv0 pl by (rule writeGrad_inv)
      have fired1: "numGradProducersNext (layers ! i) \<le> getRcvdBInputs (writeGrad p g s0) i"
        using fired0 by simp
      have e2: "bpropInvExcept layers s2 p"
        unfolding s2_def using e1 ip i fired1 by (rule truncActGrads_inv)
      have r2: "getRcvdBInputs s2 q = getRcvdBInputs s q" for q by (simp add: s2_def r0)
      from IH [OF pi e2 b] show ?thesis by (simp add: countersGrow_def r2)
    qed
  next
    case SoftmaxLayer
    from run SoftmaxLayer obtain p ps where pr: "prev (layers ! i) = p # ps"
      by (cases "prev (layers ! i)")
        (simp_all add: Layer_bpropV.simps [of K layers i s] Let_def)
    show ?thesis
    proof (cases "propagateGrad (layers ! p)")
      case False
      then have "s' = s0"
        using run SoftmaxLayer pr
        by (simp add: Layer_bpropV.simps [of K layers i s] Let_def s0_def v_def)
      then show ?thesis using inv0 r0 by (simp add: countersGrow_def)
    next
      case True
      define s2 where "s2 = truncActGrads i (writeGrad p (kSoftmaxGrads K v (getActs s0 i)) s0)"
      have eq: "Layer_bpropV K layers i s =
          (if ps \<noteq> [] then Inl (AssertionFailed ''_prev.size() == 1'')
           else if p < i then bprop K layers p s2 else Inl BadTopology)"
        using SoftmaxLayer pr True
        by (simp add: Layer_bpropV.simps [of K layers i s] Let_def s2_def s0_def v_def)
      from run eq have pi: "p < i" and b: "bprop K layers p s2 = Inr s'"
        by (auto split: if_splits)
      have pl: "p < length layers" using pi i by simp
      have ip: "i \<noteq> p" using pi by simp
      have e1: "bpropInvExcept layers (writeGrad p (kSoftmaxGrads K v (getActs s0 i)) s0) p"
        using inv0 pl by (rule writeGrad_inv)
      have fired1: "numGradProducersNext (layers ! i)
          \<le> getRcvdBInputs (writeGrad p (kSoftmaxGrads K v (getActs s0 i)) s0) i"
        using fired0 by simp
      have e2: "bpropInvExcept layers s2 p"
        unfolding s2_def using e1 ip i fired1 by (rule truncActGrads_inv)
      have r2: "getRcvdBInputs s2 q = getRcvdBInputs s q" for q by (simp add: s2_def r0)
      from IH [OF pi e2 b] show ?thesis by (simp add: countersGrow_def r2)
    qed
  next
    case DataLayer
    then show ?thesis using c by (simp add: counts_def)
  next
    case LogregCost
    then show ?thesis using c by (simp add: counts_def)
  qed
qed

lemma bprop_inv:
  assumes static: "bpropStatic layers"
  shows "i < length layers \<Longrightarrow> bpropInvExcept layers s i \<Longrightarrow> bprop K layers i s = Inr s' \<Longrightarrow>
         bpropInv layers s' \<and> countersGrow layers s s'"
proof (induction i arbitrary: s s' rule: less_induct)
  case (less i)
  have IH: "\<And>p s s'. p < i \<Longrightarrow> bpropInvExcept layers s p \<Longrightarrow> bprop K layers p s = Inr s' \<Longrightarrow>
               bpropInv layers s' \<and> countersGrow layers s s'"
    using less.IH less.prems(1) by (meson less_trans)
  note i = less.prems(1) and ex = less.prems(2) and run = less.prems(3)
  show ?case
  proof (cases "counts layers i")
    case True
    define s1 where "s1 = updLayer i countBInput s"
    have eq: "bprop K layers i s =
        (if getRcvdBInputs s1 i = numGradProducersNext (layers ! i)
         then Layer_bpropV K layers i s1 else Inr s1)"
      using True
      by (cases "kind (layers ! i)")
        (simp_all add: counts_def bprop.simps [of K layers i s] Let_def s1_def)
    have inv1: "bpropInv layers s1" unfolding s1_def using ex i True by (rule count_inv(1))
    have r1: "getRcvdBInputs s1 i = getRcvdBInputs s i + 1"
      unfolding s1_def using ex i True by (rule count_inv(2))
    have len: "length (layerStates s) = length layers" using ex by (simp add: bpropInvExcept_def)
    have "getRcvdBInputs s q \<le> getRcvdBInputs s1 q" if "q < length layers" for q
    proof (cases "q = i")
      case True
      then show ?thesis using r1 by simp
    next
      case False
      then show ?thesis using len i by (simp add: s1_def getRcvdBInputs_updLayer)
    qed
    then have g1: "countersGrow layers s s1" by (simp add: countersGrow_def)
    show ?thesis
    proof (cases "getRcvdBInputs s1 i = numGradProducersNext (layers ! i)")
      case False
      then have "s' = s1" using run eq by simp
      then show ?thesis using inv1 g1 by simp
    next
      case eqn: True
      then have v: "Layer_bpropV K layers i s1 = Inr s'" using run eq by simp
      have full: "getRcvdBInputs s i + 1 = numGradProducersNext (layers ! i)" using eqn r1 by simp
      have buf: "getActGrads s1 i = sumContributions (contribsTo i (gradLog s1))"
        and n: "length (contribsTo i (gradLog s1)) = numGradProducersNext (layers ! i)"
        using count_inv(3) [OF ex i True full] by (simp_all add: s1_def)
      have fired: "numGradProducersNext (layers ! i) \<le> getRcvdBInputs s1 i" using eqn by simp
      have pos: "0 < numGradProducersNext (layers ! i)" using full by simp
      from Layer_bpropV_inv [OF static i IH inv1 fired buf n pos True v]
      have "bpropInv layers s'" and "countersGrow layers s1 s'" by simp_all
      then show ?thesis using g1 countersGrow_trans by blast
    qed
  next
    case False
    then have inv: "bpropInv layers s" using ex by (simp add: bpropInvExcept_other)
    from False consider "kind (layers ! i) = DataLayer" | "kind (layers ! i) = LogregCost"
      by (auto simp: counts_def)
    then show ?thesis
    proof cases
      case 1
      then have "s' = s" using run by (simp add: bprop.simps [of K layers i s])
      then show ?thesis using inv by (simp add: countersGrow_refl)
    next
      case 2
      from run 2 obtain p0 p1 ps where pr: "prev (layers ! i) = p0 # p1 # ps"
        by (cases "prev (layers ! i)"; cases "tl (prev (layers ! i))")
          (simp_all add: bprop.simps [of K layers i s])
      have co: "coeff (layers ! i) \<noteq> 0" using static i 2 by (simp add: bpropStatic_def)
      define s1 where "s1 = writeGrad p1
          (kLogregCostGrads K (getActs s p1) (getActs s p0) (numCases s) (coeff (layers ! i))) s"
      have eq: "bprop K layers i s = (if p1 < i then bprop K layers p1 s1 else Inl BadTopology)"
        using 2 pr co by (simp add: bprop.simps [of K layers i s] Let_def s1_def)
      from run eq have pi: "p1 < i" and b: "bprop K layers p1 s1 = Inr s'"
        by (auto split: if_splits)
      have pl: "p1 < length layers" using pi i by simp
      have e1: "bpropInvExcept layers s1 p1" unfolding s1_def using inv pl by (rule writeGrad_inv)
      from IH [OF pi e1 b] show ?thesis by (simp add: countersGrow_def s1_def)
    qed
  qed
qed

lemma bpropCosts_inv:
  assumes static: "bpropStatic layers"
  shows "set cs \<subseteq> set (costs layers) \<Longrightarrow> bpropInv layers s \<Longrightarrow>
         bpropCosts K layers cs s = Inr s' \<Longrightarrow> bpropInv layers s'"
proof (induction cs arbitrary: s)
  case Nil
  then show ?case by simp
next
  case (Cons c cs)
  from Cons.prems(3) obtain s1 where b: "bprop K layers c s = Inr s1"
    and rest: "bpropCosts K layers cs s1 = Inr s'"
    by (auto split: sum.splits)
  have "c \<in> set (costs layers)" using Cons.prems(1) by simp
  then have c: "c < length layers" and k: "kind (layers ! c) = LogregCost"
    by (simp_all add: costs_def)
  have "\<not> counts layers c" using k by (simp add: counts_def)
  then have "bpropInvExcept layers s c" using Cons.prems(2) by (simp add: bpropInvExcept_other)
  from bprop_inv [OF static c this b] have "bpropInv layers s1" by simp
  moreover have "set cs \<subseteq> set (costs layers)" using Cons.prems(1) by simp
  ultimately show ?case using Cons.IH rest by blast
qed

lemma addNext_fields:
  "\<exists>n g. addNext b a ls ! c = (ls ! c)\<lparr>nxt := n, numGradProducersNext := g\<rparr>"
proof (cases "b < length ls \<and> c = b")
  case True
  then have "addNext b a ls ! c = (ls ! c)\<lparr>nxt := nxt (ls ! c) @ [a],
      numGradProducersNext := numGradProducersNext (ls ! c)
                                + (if gradProducer (ls ! a) then 1 else 0)\<rparr>"
    by (simp add: addNext_def)
  then show ?thesis by blast
next
  case False
  have "addNext b a ls ! c = ls ! c"
  proof (cases "b < length ls")
    case True
    then show ?thesis using False by (simp add: addNext_def)
  next
    case False
    then show ?thesis by (simp add: addNext_def not_less list_update_beyond)
  qed
  moreover have "ls ! c = (ls ! c)\<lparr>nxt := nxt (ls ! c),
      numGradProducersNext := numGradProducersNext (ls ! c)\<rparr>"
    by simp
  ultimately show ?thesis by metis
qed

lemma fold_addNext_fields:
  "\<exists>n g. fold (\<lambda>p. addNext p i) bs ls ! c = (ls ! c)\<lparr>nxt := n, numGradProducersNext := g\<rparr>"
proof (induction bs arbitrary: ls)
  case Nil
  have "ls ! c = (ls ! c)\<lparr>nxt := nxt (ls ! c),
      numGradProducersNext := numGradProducersNext (ls ! c)\<rparr>"
    by simp
  then show ?case by (metis fold_simps(1))
next
  case (Cons b bs)
  from Cons.IH [of "addNext b i ls"] obtain n g where
    1: "fold (\<lambda>p. addNext p i) bs (addNext b i ls) ! c
          = (addNext b i ls ! c)\<lparr>nxt := n, numGradProducersNext := g\<rparr>"
    by blast
  from addNext_fields [of b i ls c] obtain n' g' where
    2: "addNext b i ls ! c = (ls ! c)\<lparr>nxt := n', numGradProducersNext := g'\<rparr>"
    by blast
  have "fold (\<lambda>p. addNext p i) (b # bs) ls ! c = (ls ! c)\<lparr>nxt := n, numGradProducersNext := g\<rparr>"
    using 1 2 by simp
  then show ?case by blast
qed

lemma fold_connectLayer_fields:
  "\<exists>n g. fold connectLayer is ls ! c = (ls ! c)\<lparr>nxt := n, numGradProducersNext := g\<rparr>"
proof (induction "is" arbitrary: ls)
  case Nil
  have "ls ! c = (ls ! c)\<lparr>nxt := nxt (ls ! c),
      numGradProducersNext := numGradProducersNext (ls ! c)\<rparr>"
    by simp
  then show ?case by (metis fold_simps(1))
next
  case (Cons i "is")
  from Cons.IH [of "connectLayer i ls"] obtain n g where
    1: "fold connectLayer is (connectLayer i ls) ! c
          = (connectLayer i ls ! c)\<lparr>nxt := n, numGradProducersNext := g\<rparr>"
    by blast
  from fold_addNext_fields [of i "prev (ls ! i)" ls c] obtain n' g' where
    2: "connectLayer i ls ! c = (ls ! c)\<lparr>nxt := n', numGradProducersNext := g'\<rparr>"
    unfolding connectLayer_def by blast
  have "fold connectLayer (i # is) ls ! c = (ls ! c)\<lparr>nxt := n, numGradProducersNext := g\<rparr>"
    using 1 2 by simp
  then show ?case by blast
qed

lemma connectForward_fields:
  "\<exists>n g. connectForward ls ! c = (ls ! c)\<lparr>nxt := n, numGradProducersNext := g\<rparr>"
  unfolding connectForward_def by (rule fold_connectLayer_fields)

lemma newLayer_static:
  "newLayer ls p = Inr l \<Longrightarrow>
   (kind l \<noteq> DataLayer \<longrightarrow> propagateGrad l) \<and>
   (kind l = PoolLayer \<longrightarrow> pool l = ''max'' \<or> pool l = ''avg'')"
  unfolding newLayer_def Cost_init_def Layer_init_def
  by (auto split: if_splits sum.splits)

lemma buildLayers_static:
  "buildLayers ls ps = Inr T \<Longrightarrow>
   \<forall>l \<in> set ls. (kind l \<noteq> DataLayer \<longrightarrow> propagateGrad l) \<and>
      (kind l = PoolLayer \<longrightarrow> pool l = ''max'' \<or> pool l = ''avg'') \<Longrightarrow>
   \<forall>l \<in> set T. (kind l \<noteq> DataLayer \<longrightarrow> propagateGrad l) \<and>
      (kind l = PoolLayer \<longrightarrow> pool l = ''max'' \<or> pool l = ''avg'')"
proof (induction ps arbitrary: ls)
  case Nil
  then show ?case by simp
next
  case (Cons p ps)
  from Cons.prems(1) obtain l where l: "newLayer ls p = Inr l"
    and rest: "buildLayers (ls @ [l]) ps = Inr T"
    by (auto split: sum.splits)
  have "\<forall>l \<in> set (ls @ [l]). (kind l \<noteq> DataLayer \<longrightarrow> propagateGrad l) \<and>
      (kind l = PoolLayer \<longrightarrow> pool l = ''max'' \<or> pool l = ''avg'')"
    using Cons.prems(2) newLayer_static [OF l] by auto
  from Cons.IH [OF rest this] show ?case .
qed

lemma LayerGraph_init_bpropStatic:
  assumes init: "LayerGraph_init ps = Inr layers"
    and coeffs: "\<forall>c \<in> set (costs layers). coeff (layers ! c) \<noteq> 0"
  shows "bpropStatic layers"
proof -
  from init obtain ls where b: "buildLayers [] ps = Inr ls" and T: "layers = connectForward ls"
    by (auto simp: LayerGraph_init_def split: sum.splits)
  have st: "\<forall>l \<in> set ls. (kind l \<noteq> DataLayer \<longrightarrow> propagateGrad l) \<and>
      (kind l = PoolLayer \<longrightarrow> pool l = ''max'' \<or> pool l = ''avg'')"
    using buildLayers_static [OF b] by simp
  have "(kind (layers ! i) \<noteq> DataLayer \<longrightarrow> propagateGrad (layers ! i)) \<and>
        (kind (layers ! i) = PoolLayer \<longrightarrow>
           pool (layers ! i) = ''max'' \<or> pool (layers ! i) = ''avg'') \<and>
        (kind (layers ! i) = LogregCost \<longrightarrow> coeff (layers ! i) \<noteq> 0)"
    if i: "i < length layers" for i
  proof -
    have il: "i < length ls" using i by (simp add: T)
    then have m: "ls ! i \<in> set ls" by simp
    from connectForward_fields [of ls i] obtain n g where
      f: "layers ! i = (ls ! i)\<lparr>nxt := n, numGradProducersNext := g\<rparr>"
      unfolding T by blast
    have c: "kind (layers ! i) = LogregCost \<longrightarrow> coeff (layers ! i) \<noteq> 0"
      using coeffs i by (simp add: costs_def)
    from st m f c show ?thesis by simp
  qed
  then show ?thesis by (simp add: bpropStatic_def)
qed

lemma reset_gradLog [simp]: "gradLog (reset s) = gradLog s"
  by (simp add: reset_def)

lemma LayerGraph_bprop_handedOK:
  assumes static: "bpropStatic layers"
    and len: "length (layerStates s) = length layers"
    and zero: "\<forall>i < length layers. getRcvdBInputs s i = 0"
    and log: "gradLog s = []"
    and run: "LayerGraph_bprop K layers s = Inr s'"
  shows "handedOK layers (gradLog s')"
proof -
  from run obtain s1 where c: "bpropCosts K layers (costs layers) s = Inr s1"
    and s': "s' = reset s1"
    by (auto simp: LayerGraph_bprop_def split: sum.splits)
  have "bpropInv layers s"
    using len zero log by (simp add: bpropInv_def handedOK_Nil settled_def)
  from bpropCosts_inv [OF static subset_refl this c] have "bpropInv layers s1" .
  then show ?thesis by (simp add: s' bpropInv_def)
qed

text \<open>
  C4 (amended). In a backward pass (\<^verbatim>\<open>LayerGraph::bprop\<close>) over a graph that
  construction has built and in which no cost layer has the coefficient zero,
  started with every backward counter at zero, whenever a layer \<open>p\<close> is handed its
  activation-gradient buffer \<open>v\<close> for its own \<^verbatim>\<open>_bprop\<close>, the successors have
  written their contributions to \<open>p\<close> before, there is at least one of them and
  their number is the number of gradient-producing successors of \<open>p\<close>, and \<open>v\<close> is
  their sum: the first contribution has replaced what the buffer held and every
  later one has been added. The sum is the same for every order of arrival. The
  events of the pass are those of \<open>gradLog\<close>, which is empty at the start. (What the
  buffer holds after the layer's own \<^verbatim>\<open>_bprop\<close> is not part of the statement.)
\<close>

theorem gradient_buffer_sums_contributions:
  assumes init: "LayerGraph_init layerParams = Inr layers"
    and coeffs: "\<forall>c \<in> set (costs layers). coeff (layers ! c) \<noteq> 0"
    and len: "length (layerStates s) = length layers"
    and zero: "\<forall>i < length layers. getRcvdBInputs s i = 0"
    and log: "gradLog s = []"
    and run: "LayerGraph_bprop K layers s = Inr s'"
    and ev: "gradLog s' = before @ Handed p v # after"
  shows "v = sumContributions (contribsTo p before) \<and>
         contribsTo p before \<noteq> [] \<and>
         length (contribsTo p before) = numGradProducersNext (layers ! p) \<and>
         (\<forall>gs. mset gs = mset (contribsTo p before) \<longrightarrow> sumContributions gs = v)"
proof -
  have static: "bpropStatic layers" using init coeffs by (rule LayerGraph_init_bpropStatic)
  have ok: "handedOK layers (gradLog s')"
    using static len zero log run by (rule LayerGraph_bprop_handedOK)
  from handedOK_split [OF ok ev]
  have v: "v = sumContributions (contribsTo p before)"
    and ne: "contribsTo p before \<noteq> []"
    and n: "length (contribsTo p before) = numGradProducersNext (layers ! p)"
    by simp_all
  have "sumContributions gs = v" if "mset gs = mset (contribsTo p before)" for gs
    using sumContributions_perm [OF that] v by simp
  with v ne n show ?thesis by blast
qed

lemmas example_eval = mkLayer_def mkData_def mkState_def unitWeights_def exampleKernels_def
  updLayer_def countBInput_def contribute_def writeGrad_def logContribution_def bpropLog_def
  getRcvdBInputs_def getActGrads_def getActs_def
  truncActGrads_def NVMatrix_truncate_def FCLayer_contribute_def FCLayer_updateInc_def
  FCLayer_scaleThis_def FCLayer_scaleAB_def addProduct_def rightMult_def getTranspose_def
  add_def scale_def sum0_def Let_def reset_def costs_def upt_rec
  bprop.simps Layer_bpropV.simps FCLayer_loop.simps

lemma twoSucc_built: "LayerGraph_init twoSuccParams = Inr twoSuccLayers"
  by (simp add: twoSuccParams_def twoSuccLayers_def layerDef_def dataDef_def mkLayer_def mkData_def
      LayerGraph_init_def newLayer_def Layer_init_def Cost_init_def getNumRows_def
      connectForward_def connectLayer_def addNext_def upt_rec)

theorem gradient_buffer_sums_contributions_witness:
  "LayerGraph_init twoSuccParams = Inr twoSuccLayers \<and>
   coeff (twoSuccLayers ! 5) = 1 \<and> coeff (twoSuccLayers ! 6) = 1 \<and>
   numGradProducersNext (twoSuccLayers ! 2) = 2 \<and>
   length (layerStates twoSuccState) = length twoSuccLayers \<and>
   getRcvdBInputs twoSuccState 2 = 0 \<and> gradLog twoSuccState = [] \<and>
   getActGrads twoSuccState 2 = [[9]] \<and>
   (case LayerGraph_bprop exampleKernels twoSuccLayers twoSuccState of
      Inl e \<Rightarrow> False
    | Inr s' \<Rightarrow> gradLog s' = twoSuccLog) \<and>
   twoSuccLog = take 6 twoSuccLog @ Handed 2 [[3]] # [] \<and>
   contribsTo 2 (take 6 twoSuccLog) = [[[1]], [[2]]] \<and>
   [[3]] = sumContributions [[[1]], [[2]]] \<and>
   sumContributions [[[2]], [[1]]] = [[3]]"
proof -
  have coeffs: "\<forall>c \<in> set (costs twoSuccLayers). coeff (twoSuccLayers ! c) \<noteq> 0"
    by (simp add: costs_def twoSuccLayers_def mkLayer_def mkData_def upt_rec)
  have c: "coeff (twoSuccLayers ! 5) = 1 \<and> coeff (twoSuccLayers ! 6) = 1 \<and>
      numGradProducersNext (twoSuccLayers ! 2) = 2"
    by (simp add: twoSuccLayers_def mkLayer_def)
  have len: "length (layerStates twoSuccState) = length twoSuccLayers"
    by (simp add: twoSuccState_def twoSuccLayers_def)
  have zero: "\<forall>i < length twoSuccLayers. getRcvdBInputs twoSuccState i = 0"
    by (simp add: twoSuccState_def twoSuccLayers_def mkState_def getRcvdBInputs_def All_less_Suc)
  have log: "gradLog twoSuccState = []" by (simp add: twoSuccState_def)
  have stale: "getActGrads twoSuccState 2 = [[9]]"
    by (simp add: twoSuccState_def mkState_def getActGrads_def)
  have z2: "getRcvdBInputs twoSuccState 2 = 0"
    by (simp add: twoSuccState_def mkState_def getRcvdBInputs_def)
  have e: "(case LayerGraph_bprop exampleKernels twoSuccLayers twoSuccState of
      Inl e \<Rightarrow> False
    | Inr s' \<Rightarrow> gradLog s' = twoSuccLog)"
    by (simp add: LayerGraph_bprop_def twoSuccLayers_def twoSuccState_def twoSuccLog_def
        example_eval)
  then obtain s' where run: "LayerGraph_bprop exampleKernels twoSuccLayers twoSuccState = Inr s'"
    and lg: "gradLog s' = twoSuccLog"
    by (auto split: sum.splits)
  have sp: "twoSuccLog = take 6 twoSuccLog @ Handed 2 [[3]] # []"
    by (simp add: twoSuccLog_def)
  have ev: "gradLog s' = take 6 twoSuccLog @ Handed 2 [[3]] # []" using lg sp by simp
  have cs: "contribsTo 2 (take 6 twoSuccLog) = [[[1]], [[2]]]"
    by (simp add: twoSuccLog_def)
  have perm: "mset [[[2]], [[1::real]]] = mset (contribsTo 2 (take 6 twoSuccLog))"
    by (simp add: cs add_mset_commute)
  note t = gradient_buffer_sums_contributions [OF twoSucc_built coeffs len zero log run ev]
  from t perm have "sumContributions [[[2]], [[1]]] = [[3]]" by blast
  moreover from t cs have "[[3]] = sumContributions [[[1]], [[2]]]" by simp
  ultimately show ?thesis using twoSucc_built c len z2 log stale e sp cs by simp
qed

text \<open>
  C4 as stated fails. In the second example graph, layer 2 has the two
  gradient-producing successors 3 and 4. In a backward pass, with buffers not saved
  (the default of \<^verbatim>\<open>Layer::saveBwdActs\<close>), the successors are handed the gradients
  1 and 2 and pass them on as their contributions, and layer 2 is handed their sum;
  but at the end of the pass the buffer of layer 2 is not that sum: the layer's own
  \<^verbatim>\<open>_bprop\<close> has released it with \<^verbatim>\<open>truncActGrads\<close>.
\<close>

theorem end_of_pass_buffer_counterexample:
  "LayerGraph_init twoSuccParams = Inr twoSuccLayers \<and>
   numGradProducersNext (twoSuccLayers ! 2) = 2 \<and>
   (case LayerGraph_bprop exampleKernels twoSuccLayers twoSuccState of
      Inl e \<Rightarrow> False
    | Inr s' \<Rightarrow> bpropLog s' = [(3, [[1]]), (4, [[2]]), (2, add [[1]] [[2]])] \<and>
               getActGrads s' 2 \<noteq> add [[1]] [[2]])"
proof -
  have n: "numGradProducersNext (twoSuccLayers ! 2) = 2"
    by (simp add: twoSuccLayers_def mkLayer_def)
  have e: "(case LayerGraph_bprop exampleKernels twoSuccLayers twoSuccState of
      Inl e \<Rightarrow> False
    | Inr s' \<Rightarrow> bpropLog s' = [(3, [[1]]), (4, [[2]]), (2, add [[1]] [[2]])] \<and>
               getActGrads s' 2 \<noteq> add [[1]] [[2]])"
    by (simp add: LayerGraph_bprop_def twoSuccLayers_def twoSuccState_def example_eval)
  from twoSucc_built n e show ?thesis by simp
qed

subsection \<open>C1: a cost layer with coefficient zero\<close>

text \<open>
  C1 does not hold of the code. \<^verbatim>\<open>LogregCost::bprop\<close> skips the gradient
  kernel when the coefficient is zero, but the call \<^verbatim>\<open>_prev[1]->bprop()\<close> stands
  after the guarded block. In the first example graph the cost layer 4 has
  coefficient zero, so construction does not count it among the gradient producers
  of the softmax layer 3, whose count is 1 (for the cost layer 5). Calling
  \<^verbatim>\<open>bprop()\<close> on layer 4 with all counters at zero raises the counter of layer 3
  to 1, which runs the \<^verbatim>\<open>_bprop\<close> of layer 3 on the stale buffer 7 and, through
  it, the \<^verbatim>\<open>_bprop\<close> of the fully-connected layer 2, whose weight increment
  changes from 0 to 7.
\<close>

theorem LogregCost_bprop_zero_coeff_propagates:
  "LayerGraph_init zeroCoeffParams = Inr zeroCoeffLayers \<and>
   coeff (zeroCoeffLayers ! 4) = 0 \<and>
   numGradProducersNext (zeroCoeffLayers ! 3) = 1 \<and>
   getRcvdBInputs zeroCoeffState 3 = 0 \<and>
   getInc (weightsOf (layerStates zeroCoeffState ! 2) ! 0) = [[0]] \<and>
   (case bprop exampleKernels zeroCoeffLayers 4 zeroCoeffState of
      Inl e \<Rightarrow> False
    | Inr s' \<Rightarrow> getRcvdBInputs s' 3 = 1 \<and>
               bpropLog s' = [(3, [[7]]), (2, [[7]])] \<and>
               getInc (weightsOf (layerStates s' ! 2) ! 0) = [[7]])"
proof -
  have b: "LayerGraph_init zeroCoeffParams = Inr zeroCoeffLayers"
    by (simp add: zeroCoeffParams_def zeroCoeffLayers_def layerDef_def dataDef_def mkLayer_def mkData_def
        LayerGraph_init_def newLayer_def Layer_init_def Cost_init_def getNumRows_def
        connectForward_def connectLayer_def addNext_def upt_rec)
  have c: "coeff (zeroCoeffLayers ! 4) = 0 \<and> numGradProducersNext (zeroCoeffLayers ! 3) = 1"
    by (simp add: zeroCoeffLayers_def mkLayer_def)
  have i: "getRcvdBInputs zeroCoeffState 3 = 0 \<and>
      getInc (weightsOf (layerStates zeroCoeffState ! 2) ! 0) = [[0]]"
    by (simp add: zeroCoeffState_def mkState_def unitWeights_def getRcvdBInputs_def)
  have e: "(case bprop exampleKernels zeroCoeffLayers 4 zeroCoeffState of
      Inl e \<Rightarrow> False
    | Inr s' \<Rightarrow> getRcvdBInputs s' 3 = 1 \<and>
               bpropLog s' = [(3, [[7]]), (2, [[7]])] \<and>
               getInc (weightsOf (layerStates s' ! 2) ! 0) = [[7]])"
    by (simp add: zeroCoeffLayers_def zeroCoeffState_def example_eval)
  from b c i e show ?thesis by simp
qed

subsection \<open>C2: the forward pass runs every layer once\<close>

lemma updLayer_fpropCount [simp]: "fpropCount (updLayer i f s) k = fpropCount s k"
  by (simp add: fpropCount_def)

lemma updLayer_delivered [simp]: "delivered layers (updLayer i f s) k = delivered layers s k"
  by (simp add: delivered_def)







lemma fpropReady_logged [simp]: "fpropReady layers (s\<lparr>fpropLog := l\<rparr>) = fpropReady layers s"
  by (simp add: fpropReady_def)


lemma logged_rcvd [simp]: "getRcvdFInputs (s\<lparr>fpropLog := l\<rparr>) k = getRcvdFInputs s k"
  by (simp add: getRcvdFInputs_def)










lemma reset_length [simp]: "length (layerStates (reset s)) = length (layerStates s)"
  by (simp add: reset_def)

lemma reset_fpropLog [simp]: "fpropLog (reset s) = fpropLog s"
  by (simp add: reset_def)




lemma setData_fields [simp]:
  "layerStates (setData d s) = layerStates s" "fpropLog (setData d s) = fpropLog s"
  by (simp_all add: setData_def)















end
